theory Spec2Isabelle
  imports Complex_Main "HOL-Library.Multiset"
begin

section \<open>Data model\<close>

text \<open>
  The dataset is a pandas DataFrame read from a delimited file. A cell is a missing value
  (NaN), a number, a string or a timestamp (nanoseconds since the epoch, written by
  \<open>parse_dates\<close>). Numbers are the exact values of the floats and integers pandas holds:
  the comparisons and the clipping of the source are exact on them, and the three
  divisions of the source (\<open>count / max(1, len(df))\<close> and the two guardrail
  percentages) are taken in exact arithmetic.
\<close>

datatype cell = Missing | Number rat | Text string | Date int

datatype dtype = DObject | DNumeric | DDatetime

record dataset =
  df_columns :: "(string \<times> dtype) list"
  df_rows :: "cell list list"

definition col_names :: "dataset \<Rightarrow> string list" where
  "col_names df = map fst (df_columns df)"

definition nrows :: "dataset \<Rightarrow> nat" where
  "nrows df = length (df_rows df)"

text \<open>Position of the first column carrying a name (\<open>df[cname]\<close>, \<open>cname in df.columns\<close>).\<close>

fun index_of :: "'a list \<Rightarrow> 'a \<Rightarrow> nat option" where
  "index_of [] a = None"
| "index_of (x # xs) a = (if x = a then Some 0 else map_option Suc (index_of xs a))"

text \<open>A row shorter than the header reads as missing there, as the CSV reader pads it.\<close>

definition cell_at :: "cell list \<Rightarrow> nat \<Rightarrow> cell" where
  "cell_at r i = (if i < length r then r ! i else Missing)"

definition col_values :: "dataset \<Rightarrow> nat \<Rightarrow> cell list" where
  "col_values df i = map (\<lambda>r. cell_at r i) (df_rows df)"


text \<open>\<open>row[c]\<close>: the value of a row under a column name.\<close>

definition row_value :: "dataset \<Rightarrow> cell list \<Rightarrow> string \<Rightarrow> cell" where
  "row_value df r c = (case index_of (col_names df) c of None \<Rightarrow> Missing | Some i \<Rightarrow> cell_at r i)"

definition dtype_at :: "dataset \<Rightarrow> nat \<Rightarrow> dtype" where
  "dtype_at df i = (if i < length (df_columns df) then snd (df_columns df ! i) else DObject)"

text \<open>
  The parts of pandas and of the clock the source calls and this development does not
  fix: how a string reads as a number (\<open>pd.to_numeric\<close>), how a number or a string reads
  as a date under an optional format (\<open>pd.to_datetime\<close>), how a number and a timestamp
  print (\<open>astype(str)\<close>), what a timestamp is as a number, and the current UTC time.
\<close>

record env =
  parse_num :: "string \<Rightarrow> rat option"
  parse_date :: "string option \<Rightarrow> cell list \<Rightarrow> cell \<Rightarrow> int option"
  repr_num :: "rat \<Rightarrow> string"
  repr_date :: "int \<Rightarrow> string"
  num_of_date :: "int \<Rightarrow> rat option"
  utcnow :: int

text \<open>\<open>pd.to_numeric(series, errors="coerce")\<close> on one cell; \<open>None\<close> is NaN.\<close>

fun to_numeric :: "env \<Rightarrow> cell \<Rightarrow> rat option" where
  "to_numeric e Missing = None"
| "to_numeric e (Number r) = Some r"
| "to_numeric e (Text s) = parse_num e s"
| "to_numeric e (Date d) = num_of_date e d"

text \<open>
  \<open>pd.to_datetime(series, format=fmt, errors="coerce")\<close> on one cell of the series;
  \<open>None\<close> is NaT. Without a format pandas may infer one from the series, so the
  reading of a cell is given the whole series.
\<close>

fun to_datetime :: "env \<Rightarrow> string option \<Rightarrow> cell list \<Rightarrow> cell \<Rightarrow> int option" where
  "to_datetime e fmt series Missing = None"
| "to_datetime e fmt series (Date d) = Some d"
| "to_datetime e fmt series c = parse_date e fmt series c"

datatype error = KeyError string | AttributeError

section \<open>Rule document\<close>

datatype check =
    Duplicate "string list option"
  | RangeCheck "rat option" "rat option"
  | EnumCheck "cell list option"
  | NullRate "int option" "rat option" "cell option"
  | Freshness "int option" "string option"
  | Other string

fun type_name :: "check \<Rightarrow> string" where
  "type_name (Duplicate _) = ''duplicate''"
| "type_name (RangeCheck _ _) = ''range''"
| "type_name (EnumCheck _) = ''enum''"
| "type_name (NullRate _ _ _) = ''null_rate''"
| "type_name (Freshness _ _) = ''freshness''"
| "type_name (Other t) = t"

record column_rule =
  cr_name :: string
  cr_checks :: "check list"

record table_rule =
  tr_name :: string
  tr_checks :: "check list"
  tr_columns :: "column_rule list"

section \<open>Check evaluation (run_checks.py, main)\<close>

datatype status = Pass | Fail

datatype params =
    NoParams
  | SubsetP "string list option"
  | RangeP "rat option" "rat option"
  | AllowedP "cell list"
  | NullRateP "int option" "rat option"
  | FreshnessP "int option" "string option"

record check_result =
  r_name :: string
  r_table :: string
  r_column :: "string option"
  r_type :: string
  r_status :: status
  r_count :: nat
  r_params :: params

text \<open>\<open>int(mask.sum())\<close>\<close>

definition mask_sum :: "bool list \<Rightarrow> nat" where
  "mask_sum m = length (filter (\<lambda>b. b) m)"

subsection \<open>_mask_range\<close>

text \<open>
  The expression \<open>(s < min_v) if min_v is not None else False\<close> is a boolean Series or
  the Python scalar \<open>False\<close>; \<open>|\<close> of two scalars is a scalar, and a scalar has no
  \<open>fillna\<close>. A comparison with NaN is False.
\<close>

datatype mask = Scalar bool | Series "bool list"

fun mask_or :: "mask \<Rightarrow> mask \<Rightarrow> mask" where
  "mask_or (Scalar a) (Scalar b) = Scalar (a \<or> b)"
| "mask_or (Scalar a) (Series ys) = Series (map (\<lambda>y. a \<or> y) ys)"
| "mask_or (Series xs) (Scalar b) = Series (map (\<lambda>x. x \<or> b) xs)"
| "mask_or (Series xs) (Series ys) = Series (map (\<lambda>(x, y). x \<or> y) (zip xs ys))"

fun fillna_mask :: "mask \<Rightarrow> error + bool list" where
  "fillna_mask (Scalar b) = Inl AttributeError"
| "fillna_mask (Series xs) = Inr xs"

definition num_lt :: "rat option \<Rightarrow> rat \<Rightarrow> bool" where
  "num_lt x a = (case x of None \<Rightarrow> False | Some v \<Rightarrow> v < a)"

definition num_gt :: "rat option \<Rightarrow> rat \<Rightarrow> bool" where
  "num_gt x a = (case x of None \<Rightarrow> False | Some v \<Rightarrow> v > a)"

definition mask_range :: "env \<Rightarrow> cell list \<Rightarrow> rat option \<Rightarrow> rat option \<Rightarrow> error + bool list" where
  "mask_range e series min_v max_v =
     (let s = map (to_numeric e) series;
          below = (case min_v of None \<Rightarrow> Scalar False
                   | Some lo \<Rightarrow> Series (map (\<lambda>x. num_lt x lo) s));
          above = (case max_v of None \<Rightarrow> Scalar False
                   | Some hi \<Rightarrow> Series (map (\<lambda>x. num_gt x hi) s))
      in fillna_mask (mask_or below above))"

subsection \<open>_mask_enum\<close>

definition mask_enum :: "cell list \<Rightarrow> cell list \<Rightarrow> bool list" where
  "mask_enum series allowed = map (\<lambda>c. c \<notin> set allowed) series"

subsection \<open>_mask_duplicate\<close>

text \<open>
  \<open>df.duplicated(subset=..., keep="first")\<close>: a row is marked when its values on the
  subset have been seen in an earlier row. A subset naming a column the dataset does
  not have raises KeyError.
\<close>

fun subset_indices :: "string list \<Rightarrow> string list \<Rightarrow> error + nat list" where
  "subset_indices names [] = Inr []"
| "subset_indices names (c # cs) =
     (case index_of names c of
        None \<Rightarrow> Inl (KeyError c)
      | Some i \<Rightarrow> (case subset_indices names cs of
                     Inl err \<Rightarrow> Inl err
                   | Inr ixs \<Rightarrow> Inr (i # ixs)))"

definition row_key :: "nat list \<Rightarrow> cell list \<Rightarrow> cell list" where
  "row_key ixs r = map (cell_at r) ixs"

fun duplicated_from :: "'a list \<Rightarrow> 'a list \<Rightarrow> bool list" where
  "duplicated_from seen [] = []"
| "duplicated_from seen (k # ks) = (k \<in> set seen) # duplicated_from (k # seen) ks"

text \<open>\<open>subset or df.columns.tolist()\<close>: an absent subset and an empty one are both falsy.\<close>

definition effective_subset :: "dataset \<Rightarrow> string list option \<Rightarrow> string list" where
  "effective_subset df sub =
     (case sub of None \<Rightarrow> col_names df
      | Some s \<Rightarrow> (if s = [] then col_names df else s))"

definition duplicated :: "dataset \<Rightarrow> string list \<Rightarrow> error + bool list" where
  "duplicated df sub =
     (case subset_indices (col_names df) sub of
        Inl err \<Rightarrow> Inl err
      | Inr ixs \<Rightarrow> Inr (duplicated_from [] (map (row_key ixs) (df_rows df))))"

definition mask_duplicate :: "dataset \<Rightarrow> string list option \<Rightarrow> error + bool list" where
  "mask_duplicate df sub = duplicated df (effective_subset df sub)"

subsection \<open>_mask_freshness\<close>

definition ns_per_day :: int where
  "ns_per_day = 86400000000000"

text \<open>\<open>(now - parsed).dt.days\<close>: the whole days of the difference, rounded down.\<close>

definition age_days :: "env \<Rightarrow> int \<Rightarrow> int" where
  "age_days e t = (utcnow e - t) div ns_per_day"

definition unparsed :: "env \<Rightarrow> string option \<Rightarrow> cell list \<Rightarrow> cell \<Rightarrow> bool" where
  "unparsed e fmt series c = (to_datetime e fmt series c = None \<and> c \<noteq> Missing)"

definition too_old :: "env \<Rightarrow> string option \<Rightarrow> cell list \<Rightarrow> int \<Rightarrow> cell \<Rightarrow> bool" where
  "too_old e fmt series m c =
     (case to_datetime e fmt series c of None \<Rightarrow> False | Some t \<Rightarrow> age_days e t > m)"

definition mask_freshness :: "env \<Rightarrow> cell list \<Rightarrow> int option \<Rightarrow> string option \<Rightarrow> bool list" where
  "mask_freshness e series max_age_days parse_format =
     (case max_age_days of
        None \<Rightarrow> map (unparsed e parse_format series) series
      | Some m \<Rightarrow> map (\<lambda>c. unparsed e parse_format series c
                            \<or> too_old e parse_format series m c) series)"

subsection \<open>The evaluation loop\<close>

definition status_of_count :: "nat \<Rightarrow> status" where
  "status_of_count cnt = (if cnt > 0 then Fail else Pass)"

definition eval_table_check :: "dataset \<Rightarrow> string \<Rightarrow> check \<Rightarrow> error + check_result option" where
  "eval_table_check df tname chk =
     (case chk of
        Duplicate sub \<Rightarrow>
          (case mask_duplicate df sub of
             Inl err \<Rightarrow> Inl err
           | Inr m \<Rightarrow> Inr (Some \<lparr> r_name = tname @ ''.duplicate'', r_table = tname,
                                 r_column = None, r_type = ''duplicate'',
                                 r_status = status_of_count (mask_sum m),
                                 r_count = mask_sum m, r_params = SubsetP sub \<rparr>))
      | _ \<Rightarrow> Inr None)"

definition is_missing :: "cell \<Rightarrow> bool" where
  "is_missing c = (c = Missing)"

text \<open>
  One column check on the column at position \<open>i\<close>: the status, the count and the
  echoed parameters. An unknown kind, and \<open>duplicate\<close> at column level, fall to the
  last branch.
\<close>

definition check_outcome :: "env \<Rightarrow> dataset \<Rightarrow> nat \<Rightarrow> check \<Rightarrow> error + (status \<times> nat \<times> params)" where
  "check_outcome e df i chk =
     (case chk of
        RangeCheck min_v max_v \<Rightarrow>
          (case mask_range e (col_values df i) min_v max_v of
             Inl err \<Rightarrow> Inl err
           | Inr m \<Rightarrow> Inr (status_of_count (mask_sum m), mask_sum m, RangeP min_v max_v))
      | EnumCheck allowed \<Rightarrow>
          (let al = (case allowed of None \<Rightarrow> [] | Some a \<Rightarrow> a);
               m = mask_enum (col_values df i) al
           in Inr (status_of_count (mask_sum m), mask_sum m, AllowedP al))
      | NullRate max_nulls max_null_frac fill \<Rightarrow>
          (let nulls = map is_missing (col_values df i);
               cnt = mask_sum nulls;
               ok_by_count = (case max_nulls of None \<Rightarrow> True | Some n \<Rightarrow> int cnt \<le> n);
               frac = (of_nat cnt :: rat) / of_nat (max 1 (nrows df));
               ok_by_frac = (case max_null_frac of None \<Rightarrow> True | Some f \<Rightarrow> frac \<le> f)
           in Inr (if ok_by_count \<and> ok_by_frac then Pass else Fail, cnt,
                   NullRateP max_nulls max_null_frac))
      | Freshness max_age_days parse_format \<Rightarrow>
          (let m = mask_freshness e (col_values df i) max_age_days parse_format;
               cnt = mask_sum m
           in Inr (if max_age_days \<noteq> None \<and> cnt > 0 then Fail else Pass, cnt,
                   FreshnessP max_age_days parse_format))
      | _ \<Rightarrow> Inr (Pass, 0, NoParams))"

definition eval_column_check :: "env \<Rightarrow> dataset \<Rightarrow> string \<Rightarrow> string \<Rightarrow> nat \<Rightarrow> check \<Rightarrow> error + check_result" where
  "eval_column_check e df tname cname i chk =
     (case check_outcome e df i chk of
        Inl err \<Rightarrow> Inl err
      | Inr (st, cnt, ps) \<Rightarrow>
          Inr \<lparr> r_name = tname @ ''.'' @ cname @ ''.'' @ type_name chk, r_table = tname,
                r_column = Some cname, r_type = type_name chk,
                r_status = st, r_count = cnt, r_params = ps \<rparr>)"

record eval_state =
  es_checks :: "check_result list"
  es_passed :: nat
  es_failed :: nat

definition record_check :: "eval_state \<Rightarrow> check_result \<Rightarrow> eval_state" where
  "record_check st r =
     st \<lparr> es_checks := es_checks st @ [r],
          es_failed := es_failed st + (if r_status r = Fail then 1 else 0),
          es_passed := es_passed st + (if r_status r = Pass then 1 else 0) \<rparr>"

fun eval_table_checks :: "dataset \<Rightarrow> string \<Rightarrow> check list \<Rightarrow> eval_state \<Rightarrow> error + eval_state" where
  "eval_table_checks df tname [] st = Inr st"
| "eval_table_checks df tname (chk # chks) st =
     (case eval_table_check df tname chk of
        Inl err \<Rightarrow> Inl err
      | Inr None \<Rightarrow> eval_table_checks df tname chks st
      | Inr (Some r) \<Rightarrow> eval_table_checks df tname chks (record_check st r))"

fun eval_column_checks :: "env \<Rightarrow> dataset \<Rightarrow> string \<Rightarrow> string \<Rightarrow> nat \<Rightarrow> check list \<Rightarrow> eval_state \<Rightarrow> error + eval_state" where
  "eval_column_checks e df tname cname i [] st = Inr st"
| "eval_column_checks e df tname cname i (chk # chks) st =
     (case eval_column_check e df tname cname i chk of
        Inl err \<Rightarrow> Inl err
      | Inr r \<Rightarrow> eval_column_checks e df tname cname i chks (record_check st r))"

fun eval_columns :: "env \<Rightarrow> dataset \<Rightarrow> string \<Rightarrow> column_rule list \<Rightarrow> eval_state \<Rightarrow> error + eval_state" where
  "eval_columns e df tname [] st = Inr st"
| "eval_columns e df tname (col # cols) st =
     (case index_of (col_names df) (cr_name col) of
        None \<Rightarrow> eval_columns e df tname cols st
      | Some i \<Rightarrow>
          (case eval_column_checks e df tname (cr_name col) i (cr_checks col) st of
             Inl err \<Rightarrow> Inl err
           | Inr st' \<Rightarrow> eval_columns e df tname cols st'))"

fun eval_tables :: "env \<Rightarrow> dataset \<Rightarrow> table_rule list \<Rightarrow> eval_state \<Rightarrow> error + eval_state" where
  "eval_tables e df [] st = Inr st"
| "eval_tables e df (t # ts) st =
     (case eval_table_checks df (tr_name t) (tr_checks t) st of
        Inl err \<Rightarrow> Inl err
      | Inr st1 \<Rightarrow>
          (case eval_columns e df (tr_name t) (tr_columns t) st1 of
             Inl err \<Rightarrow> Inl err
           | Inr st2 \<Rightarrow> eval_tables e df ts st2))"

definition evaluate :: "env \<Rightarrow> dataset \<Rightarrow> table_rule list \<Rightarrow> error + eval_state" where
  "evaluate e df rules =
     eval_tables e df rules \<lparr> es_checks = [], es_passed = 0, es_failed = 0 \<rparr>"

section \<open>Fix pipeline (fixers.py)\<close>

datatype fix_note =
    NoNote
  | SubsetNote "string list"
  | BoundsNote "rat option" "rat option"
  | AllowedNote "cell list"
  | ValueNote cell
  | FormatNote string

record fix_action =
  fa_rule :: string
  fa_table :: string
  fa_column :: "string option"
  fa_action :: string
  fa_affected :: nat
  fa_notes :: fix_note

record fix_report =
  total_rows_before :: "nat option"
  total_rows_after :: "nat option"
  actions :: "fix_action list"

definition new_report :: fix_report where
  "new_report = \<lparr> total_rows_before = None, total_rows_after = None, actions = [] \<rparr>"

definition add_action :: "fix_report \<Rightarrow> string \<Rightarrow> string \<Rightarrow> string option \<Rightarrow> string \<Rightarrow> nat \<Rightarrow> fix_note \<Rightarrow> fix_report" where
  "add_action rep rule tbl col act affected notes =
     rep \<lparr> actions := actions rep @
             [\<lparr> fa_rule = rule, fa_table = tbl, fa_column = col, fa_action = act,
                fa_affected = affected, fa_notes = notes \<rparr>] \<rparr>"

text \<open>A quarantine file: its header and its rows. The directory maps file names to files.\<close>

type_synonym csv = "string list \<times> cell list list"

record fix_state =
  fs_df :: dataset
  fs_report :: fix_report
  fs_quarantine :: "string \<rightharpoonup> csv"

text \<open>\<open>df[col] = values\<close>: the column at position \<open>i\<close> is replaced, row by row.\<close>

definition set_column :: "dataset \<Rightarrow> nat \<Rightarrow> dtype \<Rightarrow> cell list \<Rightarrow> dataset" where
  "set_column df i dt vals =
     df \<lparr> df_columns := (df_columns df)[i := (fst (df_columns df ! i), dt)],
          df_rows := map (\<lambda>(r, v). r[i := v]) (zip (df_rows df) vals) \<rparr>"

text \<open>The rows selected by a boolean mask (\<open>df.loc[mask]\<close>).\<close>

definition select_rows :: "bool list \<Rightarrow> 'a list \<Rightarrow> 'a list" where
  "select_rows m xs = map snd (filter fst (zip m xs))"

subsection \<open>trim_strings\<close>

text \<open>
  \<open>astype(str)\<close> on the cells of an object column: NaN prints as \<open>nan\<close>.
  \<open>str.strip()\<close> removes the leading and trailing whitespace; the characters below are
  the ASCII ones Python counts as whitespace.
\<close>

fun astype_str :: "env \<Rightarrow> cell \<Rightarrow> string" where
  "astype_str e Missing = ''nan''"
| "astype_str e (Text s) = s"
| "astype_str e (Number r) = repr_num e r"
| "astype_str e (Date d) = repr_date e d"

definition is_space :: "char \<Rightarrow> bool" where
  "is_space c = (c \<in> set [CHR 0x09, CHR 0x0A, CHR 0x0B, CHR 0x0C, CHR 0x0D,
                            CHR 0x1C, CHR 0x1D, CHR 0x1E, CHR 0x1F, CHR 0x20])"

definition strip :: "string \<Rightarrow> string" where
  "strip s = rev (dropWhile is_space (rev (dropWhile is_space s)))"

definition trim_column :: "env \<Rightarrow> dataset \<Rightarrow> string \<Rightarrow> dataset \<times> nat" where
  "trim_column e df col =
     (case index_of (col_names df) col of
        None \<Rightarrow> (df, 0)
      | Some i \<Rightarrow>
          if dtype_at df i = DObject then
            (let before = map (astype_str e) (col_values df i);
                 after = map strip before;
                 changed = map (\<lambda>(b, a). b \<noteq> a) (zip before after)
             in (set_column df i DObject (map Text after), mask_sum changed))
          else (df, 0))"

fun trim_loop :: "env \<Rightarrow> dataset \<Rightarrow> string list \<Rightarrow> nat \<Rightarrow> dataset \<times> nat" where
  "trim_loop e df [] affected = (df, affected)"
| "trim_loop e df (col # cols) affected =
     (case trim_column e df col of
        (df', n) \<Rightarrow> trim_loop e df' cols (affected + n))"

definition trim_strings :: "env \<Rightarrow> fix_state \<Rightarrow> string list \<Rightarrow> string \<Rightarrow> fix_state" where
  "trim_strings e st cols table_name =
     (case trim_loop e (fs_df st) cols 0 of
        (df', affected) \<Rightarrow>
          st \<lparr> fs_df := df',
               fs_report := (if affected \<noteq> 0
                             then add_action (fs_report st) (table_name @ ''_trim'') table_name
                                    None ''trim_strings'' affected NoNote
                             else fs_report st) \<rparr>)"

subsection \<open>drop_exact_duplicates\<close>

text \<open>
  The only step that can raise (KeyError, from \<open>duplicated\<close>); it raises before it
  writes anything, so the state at the failure is the state it was given.
\<close>

definition drop_exact_duplicates :: "fix_state \<Rightarrow> string list option \<Rightarrow> string \<Rightarrow> (error \<times> fix_state) + fix_state" where
  "drop_exact_duplicates st sub table_name =
     (let df = fs_df st; sub' = effective_subset df sub
      in case duplicated df sub' of
           Inl err \<Rightarrow> Inl (err, st)
         | Inr dup_mask \<Rightarrow>
             (let affected = mask_sum dup_mask
              in if affected \<noteq> 0 then
                   Inr \<lparr> fs_df = df \<lparr> df_rows := select_rows (map Not dup_mask) (df_rows df) \<rparr>,
                         fs_report = add_action (fs_report st) (table_name @ ''_duplicate'')
                                       table_name None ''drop_duplicates'' affected (SubsetNote sub'),
                         fs_quarantine = (fs_quarantine st)
                            (table_name @ ''_duplicate_rows.csv'' \<mapsto>
                               (col_names df, select_rows dup_mask (df_rows df))) \<rparr>
                 else Inr st))"

subsection \<open>clip_range\<close>

text \<open>
  \<open>series.clip(lower, upper)\<close>: an absent bound does not bound; pandas orders two
  scalar bounds before clipping; NaN stays NaN.
\<close>

definition clip_value :: "rat option \<Rightarrow> rat option \<Rightarrow> rat \<Rightarrow> rat" where
  "clip_value lower upper x =
     (case (lower, upper) of
        (None, None) \<Rightarrow> x
      | (Some lo, None) \<Rightarrow> max lo x
      | (None, Some hi) \<Rightarrow> min hi x
      | (Some lo, Some hi) \<Rightarrow> min (max lo hi) (max (min lo hi) x))"

definition cell_of_num :: "rat option \<Rightarrow> cell" where
  "cell_of_num x = (case x of None \<Rightarrow> Missing | Some r \<Rightarrow> Number r)"

definition clip_range :: "env \<Rightarrow> fix_state \<Rightarrow> string \<Rightarrow> rat option \<Rightarrow> rat option \<Rightarrow> string \<Rightarrow> fix_state" where
  "clip_range e st col min_val max_val table_name =
     (let df = fs_df st
      in case index_of (col_names df) col of
           None \<Rightarrow> st
         | Some i \<Rightarrow>
             (let before = map (to_numeric e) (col_values df i);
                  clipped = map (map_option (clip_value min_val max_val)) before;
                  changed_mask = map (\<lambda>(b, c). b \<noteq> c \<and> b \<noteq> None) (zip before clipped);
                  affected = mask_sum changed_mask
              in if affected \<noteq> 0 then
                   \<lparr> fs_df = set_column df i DNumeric (map cell_of_num clipped),
                     fs_report = add_action (fs_report st) (table_name @ ''_'' @ col @ ''_range'')
                                   table_name (Some col) ''clip'' affected
                                   (BoundsNote min_val max_val),
                     fs_quarantine = (fs_quarantine st)
                        (table_name @ ''_'' @ col @ ''_range_clipped.csv'' \<mapsto>
                           ([col, col @ ''_clipped''],
                            map (\<lambda>(b, c). [cell_of_num b, cell_of_num c])
                              (select_rows changed_mask (zip before clipped)))) \<rparr>
                 else st))"

subsection \<open>enforce_enum\<close>

definition enforce_enum :: "fix_state \<Rightarrow> string \<Rightarrow> cell list \<Rightarrow> string \<Rightarrow> fix_state" where
  "enforce_enum st col allowed table_name =
     (let df = fs_df st
      in case index_of (col_names df) col of
           None \<Rightarrow> st
         | Some i \<Rightarrow>
             (let mask_invalid = map (\<lambda>c. c \<notin> set allowed) (col_values df i);
                  affected = mask_sum mask_invalid
              in if affected \<noteq> 0 then
                   st \<lparr> fs_report := add_action (fs_report st)
                                        (table_name @ ''_'' @ col @ ''_enum'') table_name (Some col)
                                        ''quarantine_invalid_enum'' affected (AllowedNote allowed),
                        fs_quarantine := (fs_quarantine st)
                           (table_name @ ''_'' @ col @ ''_enum_invalid.csv'' \<mapsto>
                              ([col], map (\<lambda>c. [c]) (select_rows mask_invalid (col_values df i)))) \<rparr>
                 else st))"

subsection \<open>fill_nulls and parse_dates\<close>

text \<open>
  \<open>df.loc[mask, column] = value\<close> writes the masked cells only. The column keeps its
  dtype when the value fits it and becomes an object column otherwise.
\<close>

fun fits_dtype :: "dtype \<Rightarrow> cell \<Rightarrow> bool" where
  "fits_dtype DObject c = True"
| "fits_dtype dt Missing = True"
| "fits_dtype DNumeric (Number r) = True"
| "fits_dtype DDatetime (Date d) = True"
| "fits_dtype dt c = False"

definition loc_dtype :: "dtype \<Rightarrow> cell list \<Rightarrow> dtype" where
  "loc_dtype dt written = (if list_all (fits_dtype dt) written then dt else DObject)"

definition fill_nulls :: "fix_state \<Rightarrow> string \<Rightarrow> cell \<Rightarrow> string \<Rightarrow> fix_state" where
  "fill_nulls st col fill_value table_name =
     (let df = fs_df st
      in case index_of (col_names df) col of
           None \<Rightarrow> st
         | Some i \<Rightarrow>
             (let m = map is_missing (col_values df i);
                  affected = mask_sum m
              in if affected \<noteq> 0 then
                   st \<lparr> fs_df := set_column df i (loc_dtype (dtype_at df i) [fill_value])
                                    (map (\<lambda>c. if is_missing c then fill_value else c)
                                       (col_values df i)),
                        fs_report := add_action (fs_report st)
                                        (table_name @ ''_'' @ col @ ''_null_fill'') table_name
                                        (Some col) ''fillna'' affected (ValueNote fill_value) \<rparr>
                 else st))"

definition parse_dates :: "env \<Rightarrow> fix_state \<Rightarrow> string \<Rightarrow> string option \<Rightarrow> string \<Rightarrow> fix_state" where
  "parse_dates e st col fmt table_name =
     (let df = fs_df st
      in case index_of (col_names df) col of
           None \<Rightarrow> st
         | Some i \<Rightarrow>
             (let series = col_values df i;
                  mask_bad = map (unparsed e fmt series) series;
                  affected_bad = mask_sum mask_bad;
                  st1 = (if affected_bad \<noteq> 0 then
                           st \<lparr> fs_report := add_action (fs_report st)
                                   (table_name @ ''_'' @ col @ ''_date_parse'') table_name
                                   (Some col) ''quarantine_unparsed_dates'' affected_bad
                                   (FormatNote (case fmt of None \<Rightarrow> ''auto'' | Some f \<Rightarrow>
                                                  if f = [] then ''auto'' else f)),
                                fs_quarantine := (fs_quarantine st)
                                   (table_name @ ''_'' @ col @ ''_unparsed_dates.csv'' \<mapsto>
                                      ([col], map (\<lambda>c. [c]) (select_rows mask_bad series))) \<rparr>
                         else st);
                  mask_ok = map (\<lambda>c. to_datetime e fmt series c \<noteq> None) series
              in if mask_sum mask_ok > 0 then
                   st1 \<lparr> fs_df := set_column df i
                                     (loc_dtype (dtype_at df i)
                                        (map (\<lambda>c. case to_datetime e fmt series c of None \<Rightarrow> Missing
                                                   | Some t \<Rightarrow> Date t) series))
                                     (map (\<lambda>c. case to_datetime e fmt series c of None \<Rightarrow> c
                                                | Some t \<Rightarrow> Date t) series) \<rparr>
                 else st1))"

subsection \<open>The fix pass of main\<close>

definition fix_column_check :: "env \<Rightarrow> string \<Rightarrow> string \<Rightarrow> fix_state \<Rightarrow> check \<Rightarrow> fix_state" where
  "fix_column_check e tname cname st chk =
     (case chk of
        RangeCheck min_v max_v \<Rightarrow> clip_range e st cname min_v max_v tname
      | EnumCheck allowed \<Rightarrow>
          (case allowed of None \<Rightarrow> st | Some al \<Rightarrow> enforce_enum st cname al tname)
      | NullRate max_nulls max_null_frac fill \<Rightarrow>
          (case fill of None \<Rightarrow> st | Some v \<Rightarrow> fill_nulls st cname v tname)
      | Freshness max_age_days fmt \<Rightarrow> parse_dates e st cname fmt tname
      | _ \<Rightarrow> st)"

definition fix_column :: "env \<Rightarrow> string \<Rightarrow> fix_state \<Rightarrow> column_rule \<Rightarrow> fix_state" where
  "fix_column e tname st col = foldl (fix_column_check e tname (cr_name col)) st (cr_checks col)"

fun fix_table_checks :: "string \<Rightarrow> check list \<Rightarrow> fix_state \<Rightarrow> (error \<times> fix_state) + fix_state" where
  "fix_table_checks tname [] st = Inr st"
| "fix_table_checks tname (chk # chks) st =
     (case chk of
        Duplicate sub \<Rightarrow>
          (case drop_exact_duplicates st sub tname of
             Inl err \<Rightarrow> Inl err
           | Inr st' \<Rightarrow> fix_table_checks tname chks st')
      | _ \<Rightarrow> fix_table_checks tname chks st)"

definition fix_table :: "env \<Rightarrow> fix_state \<Rightarrow> table_rule \<Rightarrow> (error \<times> fix_state) + fix_state" where
  "fix_table e st t =
     (let st1 = trim_strings e st (col_names (fs_df st)) (tr_name t)
      in case fix_table_checks (tr_name t) (tr_checks t) st1 of
           Inl err \<Rightarrow> Inl err
         | Inr st2 \<Rightarrow> Inr (foldl (fix_column e (tr_name t)) st2 (tr_columns t)))"

fun fix_tables :: "env \<Rightarrow> table_rule list \<Rightarrow> fix_state \<Rightarrow> (error \<times> fix_state) + fix_state" where
  "fix_tables e [] st = Inr st"
| "fix_tables e (t # ts) st =
     (case fix_table e st t of
        Inl err \<Rightarrow> Inl err
      | Inr st' \<Rightarrow> fix_tables e ts st')"

text \<open>
  The pass as main runs it: the report is created, \<open>total_rows_before\<close> is taken, the
  tables are processed, \<open>total_rows_after\<close> is taken.
\<close>

definition fix_pass :: "env \<Rightarrow> table_rule list \<Rightarrow> dataset \<Rightarrow> (string \<rightharpoonup> csv) \<Rightarrow> (error \<times> fix_state) + fix_state" where
  "fix_pass e rules df q =
     (case fix_tables e rules
             \<lparr> fs_df = df, fs_report = new_report \<lparr> total_rows_before := Some (nrows df) \<rparr>,
               fs_quarantine = q \<rparr> of
        Inl err \<Rightarrow> Inl err
      | Inr st \<Rightarrow>
          Inr (st \<lparr> fs_report := (fs_report st) \<lparr> total_rows_after := Some (nrows (fs_df st)) \<rparr> \<rparr>))"

section \<open>Guardrails and the fix stage of main (run_checks.py)\<close>

record args =
  a_fix :: bool
  a_fix_dry_run :: bool
  a_max_impact_pct :: rat
  a_max_cell_changes_pct :: rat
  a_viz :: bool

text \<open>The files of the output directory the fix stage writes.\<close>

record out_dir =
  od_fix_report :: "fix_report option"
  od_cleaned :: "dataset option"
  od_quarantine :: "string \<rightharpoonup> csv"

text \<open>
  How a run stops early: the two \<open>SystemExit\<close>s with the observed and the allowed
  percentage, an exception of the fix pass, and the TypeError of subtracting a row count
  that was never set (main always sets it).
\<close>

datatype abort =
    ImpactExceeded rat rat
  | CellChangesExceeded rat rat
  | Raised error
  | RowCountUnset

definition cell_changes_of :: "fix_report \<Rightarrow> nat" where
  "cell_changes_of rep =
     sum_list (map fa_affected (filter (\<lambda>a. fa_action a \<noteq> ''drop_duplicates'') (actions rep)))"

definition guardrails :: "args \<Rightarrow> fix_report \<Rightarrow> nat \<Rightarrow> out_dir \<Rightarrow> out_dir \<times> abort option" where
  "guardrails a report ncols od =
     (case total_rows_before report of
        None \<Rightarrow> (od, None)
      | Some before \<Rightarrow>
          if before > 0 then
            (case total_rows_after report of
               None \<Rightarrow> (od, Some RowCountUnset)
             | Some after \<Rightarrow>
                 (let delta = int before - int after;
                      impact_pct = 100 * (of_int delta / of_nat before)
                  in if impact_pct > a_max_impact_pct a then
                       (od, Some (ImpactExceeded impact_pct (a_max_impact_pct a)))
                     else
                       (let rep = report;
                            cell_changes = cell_changes_of rep;
                            total_cells = before * ncols;
                            cell_pct = 100 * (of_nat cell_changes / of_nat total_cells)
                        in if total_cells \<noteq> 0 \<and> cell_pct > a_max_cell_changes_pct a then
                             (od, Some (CellChangesExceeded cell_pct (a_max_cell_changes_pct a)))
                           else (od \<lparr> od_fix_report := Some rep \<rparr>, None))))
          else (od, None))"

record run_result =
  rr_out :: out_dir
  rr_df :: dataset
  rr_abort :: "abort option"

definition fix_stage :: "env \<Rightarrow> args \<Rightarrow> table_rule list \<Rightarrow> dataset \<Rightarrow> out_dir \<Rightarrow> run_result" where
  "fix_stage e a rules df od =
     (if a_fix a \<or> a_fix_dry_run a then
        (case fix_pass e rules df (od_quarantine od) of
           Inl (err, st) \<Rightarrow>
             \<lparr> rr_out = od \<lparr> od_quarantine := fs_quarantine st \<rparr>, rr_df = fs_df st,
               rr_abort = Some (Raised err) \<rparr>
         | Inr st \<Rightarrow>
             (case guardrails a (fs_report st) (length (df_columns (fs_df st)))
                     (od \<lparr> od_quarantine := fs_quarantine st \<rparr>) of
                (od', Some ab) \<Rightarrow> \<lparr> rr_out = od', rr_df = fs_df st, rr_abort = Some ab \<rparr>
              | (od', None) \<Rightarrow>
                  \<lparr> rr_out = (if a_fix a \<and> \<not> a_fix_dry_run a
                              then od' \<lparr> od_cleaned := Some (fs_df st) \<rparr> else od'),
                    rr_df = fs_df st, rr_abort = None \<rparr>))
      else \<lparr> rr_out = od, rr_df = df, rr_abort = None \<rparr>)"

section \<open>Null heatmap (run_checks.py, main)\<close>

definition failing_null_cols :: "check_result list \<Rightarrow> string list" where
  "failing_null_cols checks =
     concat (map (\<lambda>c. if r_type c = ''null_rate'' \<and> r_status c = Fail
                        then (case r_column c of None \<Rightarrow> []
                              | Some n \<Rightarrow> if n \<noteq> [] then [n] else [])
                        else []) checks)"

definition head :: "nat \<Rightarrow> dataset \<Rightarrow> dataset" where
  "head n df = df \<lparr> df_rows := take n (df_rows df) \<rparr>"

text \<open>\<open>isna().mean()\<close> of one column; the mean over no rows is NaN (\<open>None\<close>).\<close>

definition null_frac :: "dataset \<Rightarrow> nat \<Rightarrow> rat option" where
  "null_frac df i =
     (if nrows df = 0 then None
      else Some (of_nat (mask_sum (map is_missing (col_values df i))) / of_nat (nrows df)))"

definition null_fracs :: "dataset \<Rightarrow> (string \<times> rat option) list" where
  "null_fracs df = map (\<lambda>(i, c). (c, null_frac df i)) (enumerate 0 (col_names df))"

text \<open>
  \<open>sort_values(ascending=False)\<close>: largest first, NaN last. A fraction is at most 1, so
  the key below orders the values that way. The sort here keeps equal fractions in
  column order; the order pandas gives them is not fixed by the source.
\<close>

definition frac_key :: "rat option \<Rightarrow> rat" where
  "frac_key f = (case f of None \<Rightarrow> 1 | Some x \<Rightarrow> - x)"

definition frac_pos :: "rat option \<Rightarrow> bool" where
  "frac_pos f = (case f of None \<Rightarrow> False | Some x \<Rightarrow> x > 0)"

definition positive_null_cols :: "dataset \<Rightarrow> string list" where
  "positive_null_cols df =
     (let fracs = sort_key (\<lambda>p. frac_key (snd p)) (null_fracs (head 1000 df))
      in map fst (filter (\<lambda>p. frac_pos (snd p)) fracs))"

definition viz_cols :: "check_result list \<Rightarrow> dataset \<Rightarrow> string list" where
  "viz_cols checks df =
     (let null_cols = failing_null_cols checks;
          null_cols' = (if null_cols = [] then positive_null_cols df else null_cols)
      in take 14 (filter (\<lambda>c. c \<in> set (col_names df)) null_cols'))"

definition viz_grid :: "string list \<Rightarrow> dataset \<Rightarrow> nat list list" where
  "viz_grid null_cols df =
     map (\<lambda>row. map (\<lambda>c. if is_missing (row_value df row c) then 1 else 0) null_cols)
       (df_rows (head 10 df))"

record heatmap =
  hm_cols :: "string list"
  hm_grid :: "nat list list"

definition viz :: "args \<Rightarrow> check_result list \<Rightarrow> dataset \<Rightarrow> heatmap option" where
  "viz a checks df =
     (if a_viz a
      then Some \<lparr> hm_cols = viz_cols checks df, hm_grid = viz_grid (viz_cols checks df) df \<rparr>
      else None)"

section \<open>Summary injection (run_all.py, main)\<close>

text \<open>
  A check entry of a results document as \<open>json.loads\<close> returns it: \<open>c.get("status")\<close> and
  \<open>c.get("count", 0)\<close> read fields that may be absent.
\<close>

record jcheck =
  jc_name :: string
  jc_status :: "string option"
  jc_count :: "int option"

record summary =
  sm_dataset :: string
  sm_mode :: string
  sm_timestamp :: string
  sm_passed :: nat
  sm_failed :: nat
  sm_top_failing :: "jcheck list"

record results_doc =
  rd_passed :: nat
  rd_failed :: nat
  rd_checks :: "jcheck list option"
  rd_summary :: "summary option"

text \<open>A file holds a JSON object, or something \<open>json.loads\<close> rejects.\<close>

datatype file_content = JsonFile results_doc | Unparsable

definition count_of :: "jcheck \<Rightarrow> int" where
  "count_of c = (case jc_count c of None \<Rightarrow> 0 | Some n \<Rightarrow> n)"

definition has_status :: "string \<Rightarrow> jcheck \<Rightarrow> bool" where
  "has_status s c = (jc_status c = Some s)"

text \<open>
  \<open>sorted(xs, key=k, reverse=True)\<close> is a stable sort: largest key first, elements of
  equal key in their order in \<open>xs\<close>.
\<close>

definition sorted_reverse :: "('a \<Rightarrow> int) \<Rightarrow> 'a list \<Rightarrow> 'a list" where
  "sorted_reverse k xs = sort_key (\<lambda>x. - k x) xs"

definition top_failing :: "jcheck list \<Rightarrow> jcheck list" where
  "top_failing checks = take 5 (sorted_reverse count_of (filter (has_status ''fail'') checks))"

definition make_summary :: "string \<Rightarrow> string \<Rightarrow> string \<Rightarrow> results_doc \<Rightarrow> summary" where
  "make_summary ds mode stamp doc =
     (let checks = (case rd_checks doc of None \<Rightarrow> [] | Some cs \<Rightarrow> cs)
      in \<lparr> sm_dataset = ds, sm_mode = mode, sm_timestamp = stamp,
           sm_passed = length (filter (has_status ''pass'') checks),
           sm_failed = length (filter (has_status ''fail'') checks),
           sm_top_failing = top_failing checks \<rparr>)"

definition canonical_results :: "string \<Rightarrow> string" where
  "canonical_results out = out @ ''/results.json''"

definition descriptive_results :: "string \<Rightarrow> string \<Rightarrow> string \<Rightarrow> string \<Rightarrow> string" where
  "descriptive_results out stem stamp mode =
     out @ ''/'' @ stem @ ''__'' @ stamp @ ''__'' @ mode @ ''.json''"

text \<open>
  Lines 132 to 158 of run_all.py: the summary is injected when the canonical file loads
  and has none; a file that does not load is left as it is; the canonical file is then
  copied to the descriptive path.
\<close>

definition inject_summary :: "string \<Rightarrow> string \<Rightarrow> string \<Rightarrow> string \<Rightarrow> string \<Rightarrow> (string \<rightharpoonup> file_content) \<Rightarrow> (string \<rightharpoonup> file_content)" where
  "inject_summary out ds stem stamp mode files =
     (case files (canonical_results out) of
        None \<Rightarrow> files
      | Some f \<Rightarrow>
          (let f' = (case f of
                       Unparsable \<Rightarrow> f
                     | JsonFile doc \<Rightarrow>
                         if rd_summary doc = None
                         then JsonFile (doc \<lparr> rd_summary := Some (make_summary ds mode stamp doc) \<rparr>)
                         else f)
           in files (canonical_results out \<mapsto> f',
                     descriptive_results out stem stamp mode \<mapsto> f')))"

section \<open>The duplicate rule in the words of the specification\<close>

text \<open>
  The specification flags a row when an earlier row, in dataset order, has identical
  values across the subset \<open>S\<close>, and takes \<open>S\<close> to be the \<open>subset\<close> of the check, or all
  columns when the check has none. These definitions follow those words; they are
  compared with \<open>mask_duplicate\<close> below.
\<close>

definition spec_subset :: "dataset \<Rightarrow> string list option \<Rightarrow> string list" where
  "spec_subset df sub = (case sub of None \<Rightarrow> col_names df | Some s \<Rightarrow> s)"

definition spec_identical_on :: "dataset \<Rightarrow> string list \<Rightarrow> cell list \<Rightarrow> cell list \<Rightarrow> bool" where
  "spec_identical_on df S r r' = list_all (\<lambda>c. row_value df r c = row_value df r' c) S"

definition spec_flagged :: "dataset \<Rightarrow> string list \<Rightarrow> nat \<Rightarrow> bool" where
  "spec_flagged df S i =
     list_ex (\<lambda>j. spec_identical_on df S (df_rows df ! j) (df_rows df ! i)) [0..<i]"

definition spec_flagged_count :: "dataset \<Rightarrow> string list \<Rightarrow> nat" where
  "spec_flagged_count df S = length (filter (spec_flagged df S) [0..<nrows df])"

section \<open>Example inputs\<close>

text \<open>
  An environment for the examples: a string reads as a number when it is a decimal
  integer, no string reads as a date, and the clock stands at day 100.
\<close>

fun parse_digits :: "string \<Rightarrow> nat \<Rightarrow> nat option" where
  "parse_digits [] acc = Some acc"
| "parse_digits (c # cs) acc =
     (case index_of ''0123456789'' c of
        None \<Rightarrow> None
      | Some d \<Rightarrow> parse_digits cs (10 * acc + d))"

definition parse_integer :: "string \<Rightarrow> rat option" where
  "parse_integer s =
     (case s of
        [] \<Rightarrow> None
      | c # cs \<Rightarrow>
          if c = CHR ''-'' then (if cs = [] then None
                                 else map_option (\<lambda>n. - of_nat n) (parse_digits cs 0))
          else map_option of_nat (parse_digits s 0))"

definition sample_env :: env where
  "sample_env = \<lparr> parse_num = parse_integer, parse_date = (\<lambda>fmt series c. None),
                   repr_num = (\<lambda>r. ''0''), repr_date = (\<lambda>d. ''1970-01-01''),
                   num_of_date = (\<lambda>d. None), utcnow = 100 * ns_per_day \<rparr>"

text \<open>The datasets of the test suite (tests/test_rules.py).\<close>

definition orders_df :: dataset where
  "orders_df = \<lparr> df_columns = [(''id'', DNumeric), (''amount'', DNumeric)],
                  df_rows = [[Number 1, Number 10], [Number 1, Number 15],
                             [Number 2, Number 20], [Number 3, Number 25]] \<rparr>"

definition notes_df :: dataset where
  "notes_df = \<lparr> df_columns = [(''id'', DNumeric), (''notes'', DObject)],
                 df_rows = [[Number 1, Text ''a''], [Number 2, Missing],
                            [Number 3, Text ''b''], [Number 4, Missing]] \<rparr>"

definition amounts_df :: dataset where
  "amounts_df = \<lparr> df_columns = [(''id'', DNumeric), (''amount'', DNumeric)],
                   df_rows = [[Number 1, Number 5], [Number 2, Number 15],
                              [Number 3, Number 25], [Number 4, Number (- 3)]] \<rparr>"

text \<open>A date column: an unreadable string, a date 100 days old, one 5 days old, a gap.\<close>

definition dates_df :: dataset where
  "dates_df = \<lparr> df_columns = [(''seen'', DObject)],
                 df_rows = [[Text ''n/a''], [Date 0], [Date (95 * ns_per_day)], [Missing]] \<rparr>"


text \<open>
  A fix run over the range data: \<open>range(min=0, max=20)\<close> on \<open>amount\<close> clips two of the
  eight cells. The run is given once with the default thresholds and once with a
  cell-change threshold of 50 percent.
\<close>

definition amount_rules :: "table_rule list" where
  "amount_rules = [\<lparr> tr_name = ''test'', tr_checks = [],
                      tr_columns = [\<lparr> cr_name = ''amount'',
                                      cr_checks = [RangeCheck (Some 0) (Some 20)] \<rparr>] \<rparr>]"

definition clipped_amounts_df :: dataset where
  "clipped_amounts_df = \<lparr> df_columns = [(''id'', DNumeric), (''amount'', DNumeric)],
                   df_rows = [[Number 1, Number 5], [Number 2, Number 15],
                              [Number 3, Number 20], [Number 4, Number 0]] \<rparr>"

definition clip_action :: fix_action where
  "clip_action = \<lparr> fa_rule = ''test_amount_range'', fa_table = ''test'',
                    fa_column = Some ''amount'', fa_action = ''clip'', fa_affected = 2,
                    fa_notes = BoundsNote (Some 0) (Some 20) \<rparr>"

definition clip_report :: fix_report where
  "clip_report = \<lparr> total_rows_before = Some 4, total_rows_after = Some 4,
                    actions = [clip_action] \<rparr>"

definition strict_args :: args where
  "strict_args = \<lparr> a_fix = True, a_fix_dry_run = False, a_max_impact_pct = 2,
                    a_max_cell_changes_pct = 5, a_viz = True \<rparr>"

definition lenient_args :: args where
  "lenient_args = \<lparr> a_fix = True, a_fix_dry_run = False, a_max_impact_pct = 2,
                     a_max_cell_changes_pct = 50, a_viz = True \<rparr>"

definition clip_quarantine :: "string \<rightharpoonup> csv" where
  "clip_quarantine = [''test_amount_range_clipped.csv'' \<mapsto>
          ([''amount'', ''amount_clipped''],
           [[Number 25, Number 20], [Number (- 3), Number 0]])]"

definition empty_out :: out_dir where
  "empty_out = \<lparr> od_fix_report = None, od_cleaned = None, od_quarantine = Map.empty \<rparr>"

text \<open>A text column holding a string that is no number, and a number out of range.\<close>

definition mixed_df :: dataset where
  "mixed_df = \<lparr> df_columns = [(''amount'', DObject)],
                 df_rows = [[Text ''abc''], [Text ''25'']] \<rparr>"

text \<open>A duplicate check on \<open>id\<close>, for the rows of the duplicate test.\<close>

definition dup_rules :: "table_rule list" where
  "dup_rules = [\<lparr> tr_name = ''test'', tr_checks = [Duplicate (Some [''id''])],
                   tr_columns = [] \<rparr>]"



text \<open>
  Two null_rate checks on the same column of the null-rate data, both failing, and the
  Check Results the evaluation gives for them.
\<close>

definition twice_rules :: "table_rule list" where
  "twice_rules = [\<lparr> tr_name = ''test'', tr_checks = [],
                     tr_columns = [\<lparr> cr_name = ''notes'',
                                     cr_checks = [NullRate (Some 0) None None,
                                                  NullRate None (Some (1 / 4)) None] \<rparr>] \<rparr>]"

definition twice_checks :: "check_result list" where
  "twice_checks =
     [\<lparr> r_name = ''test.notes.null_rate'', r_table = ''test'', r_column = Some ''notes'',
         r_type = ''null_rate'', r_status = Fail, r_count = 2,
         r_params = NullRateP (Some 0) None \<rparr>,
      \<lparr> r_name = ''test.notes.null_rate'', r_table = ''test'', r_column = Some ''notes'',
         r_type = ''null_rate'', r_status = Fail, r_count = 2,
         r_params = NullRateP None (Some (1 / 4)) \<rparr>]"

text \<open>
  A results document without a summary: six failing checks, two of them with count 2 and
  one with no count, and one passing check.
\<close>

definition sample_checks :: "jcheck list" where
  "sample_checks =
     [\<lparr> jc_name = ''a'', jc_status = Some ''fail'', jc_count = Some 2 \<rparr>,
      \<lparr> jc_name = ''b'', jc_status = Some ''pass'', jc_count = Some 0 \<rparr>,
      \<lparr> jc_name = ''c'', jc_status = Some ''fail'', jc_count = Some 7 \<rparr>,
      \<lparr> jc_name = ''d'', jc_status = Some ''fail'', jc_count = Some 2 \<rparr>,
      \<lparr> jc_name = ''e'', jc_status = Some ''fail'', jc_count = None \<rparr>,
      \<lparr> jc_name = ''f'', jc_status = Some ''fail'', jc_count = Some 9 \<rparr>,
      \<lparr> jc_name = ''g'', jc_status = Some ''fail'', jc_count = Some 3 \<rparr>]"

definition sample_doc :: results_doc where
  "sample_doc = \<lparr> rd_passed = 1, rd_failed = 6, rd_checks = Some sample_checks,
                   rd_summary = None \<rparr>"

definition sample_files :: "string \<rightharpoonup> file_content" where
  "sample_files = [canonical_results ''out'' \<mapsto> JsonFile sample_doc]"
section \<open>Properties of the check evaluation\<close>

lemma mask_sum_map: "mask_sum (map P xs) = length (filter P xs)"
  by (induction xs) (auto simp: mask_sum_def)


lemma index_of_mem: "c \<in> set names \<Longrightarrow> \<exists>i. index_of names c = Some i"
  by (induction names) auto

lemma orders_names: "col_names orders_df = [''id'', ''amount'']"
  by (simp add: col_names_def orders_df_def)

lemma orders_rows:
  "df_rows orders_df = [[Number 1, Number 10], [Number 1, Number 15],
                        [Number 2, Number 20], [Number 3, Number 25]]"
  by (simp add: orders_df_def)

lemma notes_names: "col_names notes_df = [''id'', ''notes'']"
  by (simp add: col_names_def notes_df_def)

lemma notes_rows:
  "df_rows notes_df = [[Number 1, Text ''a''], [Number 2, Missing],
                       [Number 3, Text ''b''], [Number 4, Missing]]"
  by (simp add: notes_df_def)

lemma amounts_names: "col_names amounts_df = [''id'', ''amount'']"
  by (simp add: col_names_def amounts_df_def)

lemma dates_names: "col_names dates_df = [''seen'']"
  by (simp add: col_names_def dates_df_def)

lemma dates_rows:
  "df_rows dates_df = [[Text ''n/a''], [Date 0], [Date (95 * ns_per_day)], [Missing]]"
  by (simp add: dates_df_def)

subsection \<open>null_rate\<close>



subsection \<open>freshness\<close>

lemma length_filter_disj:
  "(\<And>x. x \<in> set xs \<Longrightarrow> \<not> (P x \<and> Q x)) \<Longrightarrow>
   length (filter (\<lambda>x. P x \<or> Q x) xs) = length (filter P xs) + length (filter Q xs)"
  by (induction xs) auto

lemma unparsed_not_too_old: "\<not> (unparsed e fmt s c \<and> too_old e fmt s m c)"
  by (auto simp: unparsed_def too_old_def)

lemma unparsed_fun: "unparsed e fmt s = (\<lambda>c. c \<noteq> Missing \<and> to_datetime e fmt s c = None)"
  by (auto simp: fun_eq_iff unparsed_def)

lemma too_old_fun:
  "too_old e fmt s m = (\<lambda>c. \<exists>t. to_datetime e fmt s c = Some t \<and> age_days e t > m)"
  by (auto simp: fun_eq_iff too_old_def split: option.splits)

lemma freshness_count:
  "mask_sum (mask_freshness e xs max_age_days fmt) =
     length (filter (\<lambda>c. c \<noteq> Missing \<and> to_datetime e fmt xs c = None) xs)
     + (case max_age_days of
          None \<Rightarrow> 0
        | Some m \<Rightarrow> length (filter (\<lambda>c. \<exists>t. to_datetime e fmt xs c = Some t \<and> age_days e t > m) xs))"
proof (cases max_age_days)
  case None
  then show ?thesis
    by (simp add: mask_freshness_def mask_sum_map unparsed_fun)
next
  case (Some m)
  have "length (filter (\<lambda>c. unparsed e fmt xs c \<or> too_old e fmt xs m c) xs)
        = length (filter (unparsed e fmt xs) xs) + length (filter (too_old e fmt xs m) xs)"
    by (rule length_filter_disj) (simp add: unparsed_not_too_old)
  then have "mask_sum (mask_freshness e xs (Some m) fmt)
        = length (filter (unparsed e fmt xs) xs) + length (filter (too_old e fmt xs m) xs)"
    by (simp add: mask_freshness_def mask_sum_map)
  with Some show ?thesis
    by (simp only: unparsed_fun too_old_fun option.case)
qed

lemma freshness_outcome:
  "check_outcome e df i (Freshness max_age_days fmt) =
     Inr (if max_age_days \<noteq> None \<and> mask_sum (mask_freshness e (col_values df i) max_age_days fmt) > 0
          then Fail else Pass,
          mask_sum (mask_freshness e (col_values df i) max_age_days fmt),
          FreshnessP max_age_days fmt)"
  by (simp add: check_outcome_def Let_def)

text \<open>
  C4. For every freshness check, count is the number of rows whose value was present
  but did not parse as a date, plus (when max_age_days is set) the rows whose parsed age
  in whole days exceeds max_age_days; status is fail if and only if max_age_days was
  given and count > 0. A freshness check without max_age_days therefore passes whatever
  its count.
\<close>

theorem freshness_result:
  assumes "index_of (col_names df) cname = Some i"
  shows "\<exists>r. eval_column_check e df tname cname i (Freshness max_age_days fmt) = Inr r
           \<and> r_column r = Some cname
           \<and> r_count r =
               length (filter (\<lambda>c. c \<noteq> Missing \<and> to_datetime e fmt (col_values df i) c = None)
                         (col_values df i))
               + (case max_age_days of
                    None \<Rightarrow> 0
                  | Some m \<Rightarrow>
                      length (filter (\<lambda>c. \<exists>t. to_datetime e fmt (col_values df i) c = Some t
                                          \<and> age_days e t > m)
                                (col_values df i)))
           \<and> (r_status r = Fail \<longleftrightarrow> max_age_days \<noteq> None \<and> r_count r > 0)
           \<and> (r_status r = Pass \<longleftrightarrow> r_status r \<noteq> Fail)"
proof -
  let ?cnt = "mask_sum (mask_freshness e (col_values df i) max_age_days fmt)"
  let ?r = "\<lparr> r_name = tname @ ''.'' @ cname @ ''.'' @ ''freshness'', r_table = tname,
             r_column = Some cname, r_type = ''freshness'',
             r_status = (if max_age_days \<noteq> None \<and> ?cnt > 0 then Fail else Pass),
             r_count = ?cnt, r_params = FreshnessP max_age_days fmt \<rparr>"
  have run: "eval_column_check e df tname cname i (Freshness max_age_days fmt) = Inr ?r"
    by (simp add: eval_column_check_def freshness_outcome)
  have cnt: "r_count ?r =
               length (filter (\<lambda>c. c \<noteq> Missing \<and> to_datetime e fmt (col_values df i) c = None)
                         (col_values df i))
               + (case max_age_days of
                    None \<Rightarrow> 0
                  | Some m \<Rightarrow>
                      length (filter (\<lambda>c. \<exists>t. to_datetime e fmt (col_values df i) c = Some t
                                          \<and> age_days e t > m)
                                (col_values df i)))"
    by (simp add: freshness_count)
  have st: "r_status ?r = Fail \<longleftrightarrow> max_age_days \<noteq> None \<and> r_count ?r > 0"
    by simp
  have st2: "r_status ?r = Pass \<longleftrightarrow> r_status ?r \<noteq> Fail"
    by simp
  have col: "r_column ?r = Some cname" by simp
  show ?thesis
  proof (intro exI conjI)
    show "eval_column_check e df tname cname i (Freshness max_age_days fmt) = Inr ?r"
      by (rule run)
  qed (rule col cnt st st2)+
qed

theorem freshness_result_witness:
  "index_of (col_names dates_df) ''seen'' = Some 0
   \<and> (\<exists>r. eval_column_check sample_env dates_df ''t'' ''seen'' 0 (Freshness (Some 30) None) = Inr r
          \<and> r_count r = 2 \<and> r_status r = Fail)
   \<and> (\<exists>r. eval_column_check sample_env dates_df ''t'' ''seen'' 0 (Freshness None None) = Inr r
          \<and> r_count r = 1 \<and> r_status r = Pass)"
proof -
  have ix: "index_of (col_names dates_df) ''seen'' = Some 0"
    by (simp add: dates_names)
  have vals: "col_values dates_df 0 = [Text ''n/a'', Date 0, Date (95 * ns_per_day), Missing]"
    by (simp add: col_values_def dates_rows cell_at_def)
  have bad: "length (filter (\<lambda>c. c \<noteq> Missing \<and> to_datetime sample_env None (col_values dates_df 0) c = None)
                      (col_values dates_df 0)) = 1"
    by (simp add: vals sample_env_def)
  have old: "length (filter (\<lambda>c. \<exists>t. to_datetime sample_env None (col_values dates_df 0) c = Some t
                                     \<and> age_days sample_env t > 30)
                      (col_values dates_df 0)) = 1"
    by (simp add: vals sample_env_def age_days_def ns_per_day_def)
  from freshness_result[OF ix, of sample_env "''t''" "Some 30" None] bad old
  have a: "\<exists>r. eval_column_check sample_env dates_df ''t'' ''seen'' 0 (Freshness (Some 30) None) = Inr r
          \<and> r_count r = 2 \<and> r_status r = Fail"
    by auto
  from freshness_result[OF ix, of sample_env "''t''" None None] bad
  have b: "\<exists>r. eval_column_check sample_env dates_df ''t'' ''seen'' 0 (Freshness None None) = Inr r
          \<and> r_count r = 1 \<and> r_status r = Pass"
    by auto
  from ix a b show ?thesis by (intro conjI)
qed

subsection \<open>range\<close>

text \<open>
  C6. Evaluating a range check with neither min nor max does not produce a Check
  Result: both sides of the mask are the scalar False, their disjunction is a scalar,
  and \<open>fillna\<close> on it raises AttributeError, which ends the run.
\<close>

theorem range_unbounded_raises:
  assumes "index_of (col_names df) cname = Some i"
  shows "evaluate e df [\<lparr> tr_name = tname, tr_checks = [],
                            tr_columns = [\<lparr> cr_name = cname,
                                            cr_checks = [RangeCheck None None] \<rparr>] \<rparr>]
         = Inl AttributeError"
  using assms
  by (simp add: evaluate_def eval_column_check_def check_outcome_def mask_range_def)

theorem range_unbounded_raises_witness:
  "index_of (col_names amounts_df) ''amount'' = Some 1
   \<and> evaluate sample_env amounts_df
        [\<lparr> tr_name = ''test'', tr_checks = [],
            tr_columns = [\<lparr> cr_name = ''amount'', cr_checks = [RangeCheck None None] \<rparr>] \<rparr>]
      = Inl AttributeError"
proof -
  have ix: "index_of (col_names amounts_df) ''amount'' = Some 1"
    by (simp add: amounts_names)
  from range_unbounded_raises[OF ix, of sample_env "''test''"] ix show ?thesis
    by (intro conjI)
qed

subsection \<open>duplicate\<close>

lemma length_duplicated_from [simp]: "length (duplicated_from seen ks) = length ks"
  by (induction ks arbitrary: seen) auto

lemma duplicated_from_nth:
  "i < length ks \<Longrightarrow>
   duplicated_from seen ks ! i \<longleftrightarrow> ks ! i \<in> set seen \<or> (\<exists>j<i. ks ! j = ks ! i)"
proof (induction ks arbitrary: seen i)
  case Nil
  then show ?case by simp
next
  case (Cons k ks)
  show ?case
  proof (cases i)
    case 0
    then show ?thesis by simp
  next
    case (Suc n)
    with Cons.prems have n: "n < length ks" by simp
    have "(\<exists>j<Suc n. (k # ks) ! j = ks ! n) \<longleftrightarrow> k = ks ! n \<or> (\<exists>j<n. ks ! j = ks ! n)"
      by (auto simp: less_Suc_eq_0_disj)
    with Cons.IH[OF n, of "k # seen"] Suc show ?thesis by auto
  qed
qed

lemma duplicated_from_map:
  "duplicated_from [] ks = map (\<lambda>i. \<exists>j<i. ks ! j = ks ! i) [0..<length ks]"
  by (rule nth_equalityI) (simp_all add: duplicated_from_nth)

lemma subset_indices_total:
  "set S \<subseteq> set names \<Longrightarrow>
   subset_indices names S =
     Inr (map (\<lambda>c. case index_of names c of None \<Rightarrow> 0 | Some i \<Rightarrow> i) S)"
proof (induction S)
  case Nil
  then show ?case by simp
next
  case (Cons c S)
  from Cons.prems obtain i where "index_of names c = Some i"
    using index_of_mem[of c names] by auto
  moreover from Cons have "subset_indices names S =
     Inr (map (\<lambda>c. case index_of names c of None \<Rightarrow> 0 | Some i \<Rightarrow> i) S)"
    by simp
  ultimately show ?case by simp
qed

lemma row_key_names:
  assumes "set S \<subseteq> set (col_names df)"
  shows "row_key (map (\<lambda>c. case index_of (col_names df) c of None \<Rightarrow> 0 | Some i \<Rightarrow> i) S) r
         = map (row_value df r) S"
proof -
  have "cell_at r (case index_of (col_names df) c of None \<Rightarrow> 0 | Some i \<Rightarrow> i) = row_value df r c"
    if "c \<in> set S" for c
  proof -
    from that assms obtain i where "index_of (col_names df) c = Some i"
      using index_of_mem[of c "col_names df"] by auto
    then show ?thesis by (simp add: row_value_def)
  qed
  then show ?thesis by (simp add: row_key_def)
qed

lemma list_ex_upt: "list_ex P [0..<i] \<longleftrightarrow> (\<exists>j<i. P j)"
  by (auto simp: list_ex_iff)

lemma duplicated_flagged:
  assumes "set S \<subseteq> set (col_names df)"
  shows "duplicated df S = Inr (map (spec_flagged df S) [0..<nrows df])"
proof -
  define ixs where "ixs = map (\<lambda>c. case index_of (col_names df) c of None \<Rightarrow> 0 | Some i \<Rightarrow> i) S"
  have ixs: "subset_indices (col_names df) S = Inr ixs"
    unfolding ixs_def by (rule subset_indices_total[OF assms])
  have key: "\<And>r. row_key ixs r = map (row_value df r) S"
    unfolding ixs_def by (rule row_key_names[OF assms])
  let ?ks = "map (row_key ixs) (df_rows df)"
  have "(\<lambda>i. \<exists>j<i. ?ks ! j = ?ks ! i) i = spec_flagged df S i" if "i < nrows df" for i
    using that
    by (auto simp: spec_flagged_def list_ex_upt spec_identical_on_def key nrows_def
                   list_all_iff)
  then have "map (\<lambda>i. \<exists>j<i. ?ks ! j = ?ks ! i) [0..<nrows df]
             = map (spec_flagged df S) [0..<nrows df]"
    by simp
  with ixs show ?thesis
    by (simp add: duplicated_def duplicated_from_map nrows_def)
qed

text \<open>
  C5, as the code has it. Let S be the subset of a duplicate check, or all dataset
  columns when the subset is absent or empty, and let every column of S exist. A row is
  flagged exactly when an earlier row has identical values across S; the Check Result's
  count is the number of flagged rows, and status is fail if and only if count > 0.
\<close>

theorem duplicate_result:
  assumes "set (effective_subset df sub) \<subseteq> set (col_names df)"
  shows "\<exists>r. eval_table_check df tname (Duplicate sub) = Inr (Some r)
           \<and> mask_duplicate df sub =
               Inr (map (spec_flagged df (effective_subset df sub)) [0..<nrows df])
           \<and> r_count r = spec_flagged_count df (effective_subset df sub)
           \<and> (r_status r = Fail \<longleftrightarrow> r_count r > 0)
           \<and> (r_status r = Pass \<longleftrightarrow> r_count r = 0)"
proof -
  let ?S = "effective_subset df sub"
  let ?m = "map (spec_flagged df ?S) [0..<nrows df]"
  let ?r = "\<lparr> r_name = tname @ ''.duplicate'', r_table = tname, r_column = None,
             r_type = ''duplicate'', r_status = status_of_count (mask_sum ?m),
             r_count = mask_sum ?m, r_params = SubsetP sub \<rparr>"
  have m: "mask_duplicate df sub = Inr ?m"
    unfolding mask_duplicate_def by (rule duplicated_flagged[OF assms])
  then have run: "eval_table_check df tname (Duplicate sub) = Inr (Some ?r)"
    by (simp add: eval_table_check_def)
  have cnt: "r_count ?r = spec_flagged_count df ?S"
    by (simp add: mask_sum_map spec_flagged_count_def)
  have st1: "r_status ?r = Fail \<longleftrightarrow> r_count ?r > 0"
    by (simp add: status_of_count_def)
  have st2: "r_status ?r = Pass \<longleftrightarrow> r_count ?r = 0"
    by (simp add: status_of_count_def)
  show ?thesis
  proof (intro exI conjI)
    show "eval_table_check df tname (Duplicate sub) = Inr (Some ?r)" by (rule run)
  qed (rule m cnt st1 st2)+
qed

text \<open>The rows (1,10), (1,15), (2,20), (3,25) with subset [id]: one row is flagged.\<close>

theorem duplicate_result_witness:
  "set (effective_subset orders_df (Some [''id''])) \<subseteq> set (col_names orders_df)
   \<and> (\<exists>r. eval_table_check orders_df ''test'' (Duplicate (Some [''id''])) = Inr (Some r)
          \<and> r_count r = 1 \<and> r_status r = Fail)"
proof -
  have sub: "set (effective_subset orders_df (Some [''id''])) \<subseteq> set (col_names orders_df)"
    by (simp add: effective_subset_def orders_names)
  have cnt: "spec_flagged_count orders_df (effective_subset orders_df (Some [''id''])) = 1"
    by (simp add: effective_subset_def spec_flagged_count_def spec_flagged_def
         spec_identical_on_def row_value_def orders_names orders_rows nrows_def cell_at_def
         upt_rec)
  from duplicate_result[OF sub, of "''test''"] cnt
  have "\<exists>r. eval_table_check orders_df ''test'' (Duplicate (Some [''id''])) = Inr (Some r)
          \<and> r_count r = 1 \<and> r_status r = Fail"
    by auto
  with sub show ?thesis by (intro conjI)
qed

text \<open>
  C5 as stated fails for a subset that is present and empty: the code then compares all
  columns and flags nothing here, while every row after the first has an earlier row
  identical across the empty subset.
\<close>

theorem duplicate_empty_subset_counterexample:
  "eval_table_check orders_df ''test'' (Duplicate (Some [])) =
     Inr (Some \<lparr> r_name = ''test.duplicate'', r_table = ''test'', r_column = None,
                 r_type = ''duplicate'', r_status = Pass, r_count = 0,
                 r_params = SubsetP (Some []) \<rparr>)
   \<and> spec_flagged_count orders_df (spec_subset orders_df (Some [])) = 3"
proof -
  have a: "mask_duplicate orders_df (Some []) = Inr [False, False, False, False]"
    by (simp add: mask_duplicate_def duplicated_def effective_subset_def orders_names
          orders_rows row_key_def cell_at_def)
  have b: "spec_flagged_count orders_df (spec_subset orders_df (Some [])) = 3"
    by (simp add: spec_subset_def spec_flagged_count_def spec_flagged_def
          spec_identical_on_def orders_rows nrows_def upt_rec)
  from a have "eval_table_check orders_df ''test'' (Duplicate (Some [])) =
     Inr (Some \<lparr> r_name = ''test.duplicate'', r_table = ''test'', r_column = None,
                 r_type = ''duplicate'', r_status = Pass, r_count = 0,
                 r_params = SubsetP (Some []) \<rparr>)"
    by (simp add: eval_table_check_def mask_sum_def status_of_count_def)
  with b show ?thesis by (intro conjI)
qed

section \<open>Properties of the fix pipeline\<close>

subsection \<open>Row counts\<close>

lemma length_col_values [simp]: "length (col_values df i) = nrows df"
  by (simp add: col_values_def nrows_def)

lemma nrows_set_column:
  "length vals = nrows df \<Longrightarrow> nrows (set_column df i dt vals) = nrows df"
  by (simp add: set_column_def nrows_def)

lemma before_add_action [simp]:
  "total_rows_before (add_action rep rule tbl col act n notes) = total_rows_before rep"
  by (simp add: add_action_def)

lemma nrows_trim_column: "nrows (fst (trim_column e df col)) = nrows df"
  by (simp add: trim_column_def Let_def nrows_set_column split: option.splits)

lemma nrows_trim_loop: "nrows (fst (trim_loop e df cols n)) = nrows df"
proof (induction cols arbitrary: df n)
  case Nil
  then show ?case by simp
next
  case (Cons c cs)
  obtain df' k where step: "trim_column e df c = (df', k)" by (cases "trim_column e df c")
  then have "nrows df' = nrows df"
    using nrows_trim_column[of e df c] by simp
  with Cons.IH[of df' "n + k"] step show ?case by simp
qed

lemma trim_strings_rows: "nrows (fs_df (trim_strings e st cols t)) = nrows (fs_df st)"
proof -
  obtain df' k where l: "trim_loop e (fs_df st) cols 0 = (df', k)"
    by (cases "trim_loop e (fs_df st) cols 0")
  then have "nrows df' = nrows (fs_df st)"
    using nrows_trim_loop[of e "fs_df st" cols 0] by simp
  with l show ?thesis by (simp add: trim_strings_def)
qed

lemma trim_strings_before:
  "total_rows_before (fs_report (trim_strings e st cols t)) = total_rows_before (fs_report st)"
  by (cases "trim_loop e (fs_df st) cols 0") (simp add: trim_strings_def)

lemma clip_range_rows: "nrows (fs_df (clip_range e st col lo hi t)) = nrows (fs_df st)"
  by (simp add: clip_range_def Let_def nrows_set_column split: option.splits)

lemma clip_range_before:
  "total_rows_before (fs_report (clip_range e st col lo hi t)) = total_rows_before (fs_report st)"
  by (simp add: clip_range_def Let_def split: option.splits)

lemma enforce_enum_rows: "nrows (fs_df (enforce_enum st col allowed t)) = nrows (fs_df st)"
  by (simp add: enforce_enum_def Let_def split: option.splits)

lemma enforce_enum_df: "fs_df (enforce_enum st col allowed t) = fs_df st"
  by (simp add: enforce_enum_def Let_def split: option.splits)

lemma enforce_enum_before:
  "total_rows_before (fs_report (enforce_enum st col allowed t)) = total_rows_before (fs_report st)"
  by (simp add: enforce_enum_def Let_def split: option.splits)

lemma fill_nulls_rows: "nrows (fs_df (fill_nulls st col v t)) = nrows (fs_df st)"
  by (simp add: fill_nulls_def Let_def nrows_set_column split: option.splits)

lemma fill_nulls_before:
  "total_rows_before (fs_report (fill_nulls st col v t)) = total_rows_before (fs_report st)"
  by (simp add: fill_nulls_def Let_def split: option.splits)

lemma parse_dates_rows: "nrows (fs_df (parse_dates e st col fmt t)) = nrows (fs_df st)"
  by (simp add: parse_dates_def Let_def nrows_set_column split: option.splits)

lemma parse_dates_before:
  "total_rows_before (fs_report (parse_dates e st col fmt t)) = total_rows_before (fs_report st)"
  by (simp add: parse_dates_def Let_def split: option.splits)

lemma length_select_rows: "length (select_rows m xs) \<le> length xs"
proof -
  have "length (filter fst (zip m xs)) \<le> length (zip m xs)" by (rule length_filter_le)
  then show ?thesis by (simp add: select_rows_def)
qed

lemma drop_exact_duplicates_rows:
  "drop_exact_duplicates st sub t = Inr st' \<Longrightarrow> nrows (fs_df st') \<le> nrows (fs_df st)"
  by (auto simp: drop_exact_duplicates_def Let_def nrows_def length_select_rows
           split: sum.splits if_splits)

lemma drop_exact_duplicates_before:
  "drop_exact_duplicates st sub t = Inr st' \<Longrightarrow>
   total_rows_before (fs_report st') = total_rows_before (fs_report st)"
  by (auto simp: drop_exact_duplicates_def Let_def split: sum.splits if_splits)

lemma fix_column_check_rows:
  "nrows (fs_df (fix_column_check e t c st chk)) = nrows (fs_df st)"
  by (simp add: fix_column_check_def clip_range_rows enforce_enum_rows fill_nulls_rows
        parse_dates_rows split: check.splits option.splits)

lemma fix_column_check_before:
  "total_rows_before (fs_report (fix_column_check e t c st chk)) = total_rows_before (fs_report st)"
  by (simp add: fix_column_check_def clip_range_before enforce_enum_before fill_nulls_before
        parse_dates_before split: check.splits option.splits)

lemma fix_column_rows: "nrows (fs_df (fix_column e t st col)) = nrows (fs_df st)"
proof -
  have "nrows (fs_df (foldl (fix_column_check e t c) st chks)) = nrows (fs_df st)" for c chks
    by (induction chks arbitrary: st) (simp_all add: fix_column_check_rows)
  then show ?thesis by (simp add: fix_column_def)
qed

lemma fix_column_before:
  "total_rows_before (fs_report (fix_column e t st col)) = total_rows_before (fs_report st)"
proof -
  have "total_rows_before (fs_report (foldl (fix_column_check e t c) st chks))
        = total_rows_before (fs_report st)" for c chks
    by (induction chks arbitrary: st) (simp_all add: fix_column_check_before)
  then show ?thesis by (simp add: fix_column_def)
qed

lemma fix_columns_rows: "nrows (fs_df (foldl (fix_column e t) st cols)) = nrows (fs_df st)"
  by (induction cols arbitrary: st) (simp_all add: fix_column_rows)

lemma fix_columns_before:
  "total_rows_before (fs_report (foldl (fix_column e t) st cols)) = total_rows_before (fs_report st)"
  by (induction cols arbitrary: st) (simp_all add: fix_column_before)

lemma fix_table_checks_rows:
  "fix_table_checks t chks st = Inr st' \<Longrightarrow>
   nrows (fs_df st') \<le> nrows (fs_df st)
   \<and> total_rows_before (fs_report st') = total_rows_before (fs_report st)"
proof (induction chks arbitrary: st)
  case Nil
  then show ?case by simp
next
  case (Cons chk chks)
  show ?case
  proof (cases chk)
    case (Duplicate sub)
    with Cons.prems obtain st1 where d: "drop_exact_duplicates st sub t = Inr st1"
      and rest: "fix_table_checks t chks st1 = Inr st'"
      by (auto split: sum.splits)
    from Cons.IH[OF rest] drop_exact_duplicates_rows[OF d] drop_exact_duplicates_before[OF d]
    show ?thesis by simp
  qed (use Cons in auto)
qed

lemma fix_table_rows:
  assumes "fix_table e st t = Inr st'"
  shows "nrows (fs_df st') \<le> nrows (fs_df st)
         \<and> total_rows_before (fs_report st') = total_rows_before (fs_report st)"
proof -
  let ?st1 = "trim_strings e st (col_names (fs_df st)) (tr_name t)"
  from assms obtain st2 where c: "fix_table_checks (tr_name t) (tr_checks t) ?st1 = Inr st2"
    and e: "st' = foldl (fix_column e (tr_name t)) st2 (tr_columns t)"
    by (auto simp: fix_table_def Let_def split: sum.splits)
  from fix_table_checks_rows[OF c] e show ?thesis
    by (simp add: fix_columns_rows fix_columns_before trim_strings_rows trim_strings_before)
qed

lemma fix_tables_rows:
  "fix_tables e ts st = Inr st' \<Longrightarrow>
   nrows (fs_df st') \<le> nrows (fs_df st)
   \<and> total_rows_before (fs_report st') = total_rows_before (fs_report st)"
proof (induction ts arbitrary: st)
  case Nil
  then show ?case by simp
next
  case (Cons t ts)
  from Cons.prems obtain st1 where a: "fix_table e st t = Inr st1"
    and b: "fix_tables e ts st1 = Inr st'"
    by (auto split: sum.splits)
  from fix_table_rows[OF a] Cons.IH[OF b] show ?case by simp
qed

lemma fix_pass_counts:
  assumes "fix_pass e rules df q = Inr st"
  shows "total_rows_before (fs_report st) = Some (nrows df)"
    and "total_rows_after (fs_report st) = Some (nrows (fs_df st))"
    and "nrows (fs_df st) \<le> nrows df"
proof -
  let ?st0 = "\<lparr> fs_df = df, fs_report = new_report \<lparr> total_rows_before := Some (nrows df) \<rparr>,
               fs_quarantine = q \<rparr>"
  from assms obtain st1 where r: "fix_tables e rules ?st0 = Inr st1"
    and s: "st = st1 \<lparr> fs_report := (fs_report st1) \<lparr> total_rows_after := Some (nrows (fs_df st1)) \<rparr> \<rparr>"
    by (auto simp: fix_pass_def split: sum.splits)
  from fix_tables_rows[OF r] have "nrows (fs_df st1) \<le> nrows df"
    and "total_rows_before (fs_report st1) = Some (nrows df)"
    by simp_all
  with s show "total_rows_before (fs_report st) = Some (nrows df)"
    and "total_rows_after (fs_report st) = Some (nrows (fs_df st))"
    and "nrows (fs_df st) \<le> nrows df"
    by simp_all
qed

lemma orders_columns: "df_columns orders_df = [(''id'', DNumeric), (''amount'', DNumeric)]"
  by (simp add: orders_df_def)

lemma trim_orders: "trim_loop sample_env orders_df [''id'', ''amount''] 0 = (orders_df, 0)"
  by (simp add: trim_column_def orders_names dtype_at_def orders_columns)

lemma trim_strings_orders:
  "trim_strings sample_env \<lparr> fs_df = orders_df, fs_report = rep, fs_quarantine = q \<rparr>
     [''id'', ''amount''] t
   = \<lparr> fs_df = orders_df, fs_report = rep, fs_quarantine = q \<rparr>"
  by (simp add: trim_strings_def trim_orders del: trim_loop.simps)

lemma duplicated_orders: "duplicated orders_df [''id''] = Inr [False, True, False, False]"
  by (simp add: duplicated_def orders_names orders_rows row_key_def cell_at_def)

lemma drop_orders:
  "drop_exact_duplicates \<lparr> fs_df = orders_df, fs_report = rep, fs_quarantine = q \<rparr>
     (Some [''id'']) ''test''
   = Inr \<lparr> fs_df = orders_df \<lparr> df_rows := [[Number 1, Number 10], [Number 2, Number 20],
                                                [Number 3, Number 25]] \<rparr>,
           fs_report = add_action rep ''test_duplicate'' ''test'' None ''drop_duplicates'' 1
                         (SubsetNote [''id'']),
           fs_quarantine = q (''test_duplicate_rows.csv'' \<mapsto>
                                ([''id'', ''amount''], [[Number 1, Number 15]])) \<rparr>"
  by (simp add: drop_exact_duplicates_def Let_def effective_subset_def duplicated_orders
        mask_sum_def select_rows_def orders_rows orders_names)

text \<open>
  C7. In every fix run the Fix Report has total_rows_after <= total_rows_before, and of
  the six fix steps only drop_exact_duplicates changes the number of rows: trim, clip,
  enum quarantine, null fill and date parse return a dataset with as many rows as they
  were given, and a duplicate drop never adds a row.
\<close>

theorem fix_row_counts:
  "(fix_pass e rules df q = Inr st \<longrightarrow>
      (\<exists>b a. total_rows_before (fs_report st) = Some b \<and> total_rows_after (fs_report st) = Some a
             \<and> b = nrows df \<and> a = nrows (fs_df st) \<and> a \<le> b))
   \<and> nrows (fs_df (trim_strings e s cols t)) = nrows (fs_df s)
   \<and> nrows (fs_df (clip_range e s col lo hi t)) = nrows (fs_df s)
   \<and> nrows (fs_df (enforce_enum s col allowed t)) = nrows (fs_df s)
   \<and> nrows (fs_df (fill_nulls s col v t)) = nrows (fs_df s)
   \<and> nrows (fs_df (parse_dates e s col fmt t)) = nrows (fs_df s)
   \<and> (drop_exact_duplicates s sub t = Inr s' \<longrightarrow> nrows (fs_df s') \<le> nrows (fs_df s))"
proof (intro conjI impI)
  assume "fix_pass e rules df q = Inr st"
  from fix_pass_counts[OF this]
  show "\<exists>b a. total_rows_before (fs_report st) = Some b \<and> total_rows_after (fs_report st) = Some a
             \<and> b = nrows df \<and> a = nrows (fs_df st) \<and> a \<le> b"
    by simp
next
  assume "drop_exact_duplicates s sub t = Inr s'"
  then show "nrows (fs_df s') \<le> nrows (fs_df s)" by (rule drop_exact_duplicates_rows)
qed (rule trim_strings_rows clip_range_rows enforce_enum_rows fill_nulls_rows parse_dates_rows)+

text \<open>The duplicate drop on the rows (1,10), (1,15), (2,20), (3,25): four rows become three.\<close>

theorem fix_row_counts_witness:
  "(\<exists>st. fix_pass sample_env dup_rules orders_df Map.empty = Inr st
         \<and> total_rows_before (fs_report st) = Some 4
         \<and> total_rows_after (fs_report st) = Some 3)
   \<and> (\<exists>s'. drop_exact_duplicates
               \<lparr> fs_df = orders_df, fs_report = new_report, fs_quarantine = Map.empty \<rparr>
               (Some [''id'']) ''test'' = Inr s'
          \<and> nrows (fs_df s') = 3 \<and> nrows orders_df = 4)"
proof -
  let ?s0 = "\<lparr> fs_df = orders_df, fs_report = new_report, fs_quarantine = Map.empty \<rparr>"
  obtain s' where d: "drop_exact_duplicates ?s0 (Some [''id'']) ''test'' = Inr s'"
    and ds: "nrows (fs_df s') = 3"
    by (simp add: drop_orders nrows_def)
  have n: "nrows orders_df = 4" by (simp add: nrows_def orders_rows)
  obtain st where p: "fix_pass sample_env dup_rules orders_df Map.empty = Inr st"
    and a: "nrows (fs_df st) = 3"
    by (simp add: fix_pass_def dup_rules_def fix_table_def Let_def orders_names
          trim_strings_orders drop_orders nrows_def)
  from fix_row_counts[of sample_env dup_rules orders_df Map.empty st ?s0 "[]" "''test''"
         "''id''" None None "[]" Missing None "Some [''id'']" s'] p d a n
  have "total_rows_before (fs_report st) = Some 4 \<and> total_rows_after (fs_report st) = Some 3"
    by auto
  with p d ds n show ?thesis by auto
qed

subsection \<open>Guardrails and the Fix Report file\<close>

lemma amounts_rows:
  "df_rows amounts_df = [[Number 1, Number 5], [Number 2, Number 15],
                              [Number 3, Number 25], [Number 4, Number (- 3)]]"
  by (simp add: amounts_df_def)

lemma amounts_columns: "df_columns amounts_df = [(''id'', DNumeric), (''amount'', DNumeric)]"
  by (simp add: amounts_df_def)

lemma trim_amounts: "trim_loop sample_env amounts_df [''id'', ''amount''] 0 = (amounts_df, 0)"
  by (simp add: trim_column_def amounts_names dtype_at_def amounts_columns)

lemma amounts_index: "index_of (col_names amounts_df) ''amount'' = Some (Suc 0)"
  by (simp add: amounts_names)

lemma amounts_values:
  "col_values amounts_df (Suc 0) = [Number 5, Number 15, Number 25, Number (- 3)]"
  by (simp add: col_values_def amounts_rows cell_at_def)

lemma amounts_set_column:
  "set_column amounts_df (Suc 0) DNumeric [Number 5, Number 15, Number 20, Number 0]
   = clipped_amounts_df"
  by (simp add: set_column_def amounts_rows amounts_columns clipped_amounts_df_def amounts_df_def)

lemma clip_amounts:
  "clip_range sample_env \<lparr> fs_df = amounts_df, fs_report = rep, fs_quarantine = q \<rparr>
            ''amount'' (Some 0) (Some 20) ''test''
   = \<lparr> fs_df = clipped_amounts_df,
       fs_report = add_action rep ''test_amount_range'' ''test''
              (Some ''amount'') ''clip'' 2 (BoundsNote (Some 0) (Some 20)),
       fs_quarantine = q (''test_amount_range_clipped.csv'' \<mapsto>
          ([''amount'', ''amount_clipped''],
           [[Number 25, Number 20], [Number (- 3), Number 0]])) \<rparr>"
  by (simp add: clip_range_def Let_def amounts_index amounts_values
        clip_value_def mask_sum_def amounts_set_column cell_of_num_def select_rows_def
        numeral_2_eq_2)

lemma nrows_amounts: "nrows amounts_df = 4" "nrows clipped_amounts_df = 4"
  by (simp_all add: nrows_def amounts_rows clipped_amounts_df_def)

lemma clipped_columns: "length (df_columns clipped_amounts_df) = 2"
  by (simp add: clipped_amounts_df_def)

lemma trim_strings_amounts:
  "trim_strings sample_env \<lparr> fs_df = amounts_df, fs_report = rep, fs_quarantine = q \<rparr>
     [''id'', ''amount''] t
   = \<lparr> fs_df = amounts_df, fs_report = rep, fs_quarantine = q \<rparr>"
  by (simp add: trim_strings_def trim_amounts del: trim_loop.simps)

lemma fix_pass_amounts:
  "fix_pass sample_env amount_rules amounts_df Map.empty
   = Inr \<lparr> fs_df = clipped_amounts_df, fs_report = clip_report,
           fs_quarantine = clip_quarantine \<rparr>"
  by (simp add: fix_pass_def amount_rules_def fix_table_def Let_def trim_strings_amounts
        amounts_names fix_column_def fix_column_check_def clip_amounts
        nrows_amounts add_action_def new_report_def clip_report_def clip_action_def
        clip_quarantine_def)

lemma guardrails_strict:
  "guardrails strict_args clip_report 2 od = (od, Some (CellChangesExceeded 25 5))"
  by (simp add: guardrails_def Let_def clip_report_def strict_args_def cell_changes_of_def
        clip_action_def)

lemma guardrails_lenient:
  "guardrails lenient_args clip_report 2 od = (od \<lparr> od_fix_report := Some clip_report \<rparr>, None)"
  by (simp add: guardrails_def Let_def clip_report_def lenient_args_def cell_changes_of_def
        clip_action_def)

lemma guardrails_abort: "guardrails a rep n od = (od', Some ab) \<Longrightarrow> od' = od"
  by (auto simp: guardrails_def Let_def split: option.splits if_splits)

lemma guardrails_pass:
  "guardrails a rep n od = (od', None) \<Longrightarrow> total_rows_before rep = Some b \<Longrightarrow> b > 0 \<Longrightarrow>
   od' = od \<lparr> od_fix_report := Some rep \<rparr>"
  by (auto simp: guardrails_def Let_def split: option.splits if_splits)

text \<open>
  C1 as stated fails: the report is written after the cell-change guardrail, not before
  it. The range run with the default thresholds changes 2 of 8 cells (25 percent), is
  aborted by the cell-change guardrail, and leaves no fix_report.json in an output
  directory that had none.
\<close>

theorem cell_guardrail_counterexample:
  "rr_abort (fix_stage sample_env strict_args amount_rules amounts_df empty_out)
     = Some (CellChangesExceeded 25 5)
   \<and> od_fix_report (rr_out (fix_stage sample_env strict_args amount_rules amounts_df empty_out))
     = None"
  by (simp add: fix_stage_def fix_pass_amounts empty_out_def clipped_columns guardrails_strict
        strict_args_def[THEN arg_cong, of a_fix] strict_args_def[THEN arg_cong, of a_fix_dry_run])

text \<open>
  C1, as the code has it. A fix run that is aborted, by either guardrail or by an
  exception of the fix pass, leaves fix_report.json as it was before the run; a fix run
  over a dataset with at least one row that passes both guardrails writes the Fix Report,
  with total_rows_before and total_rows_after, to fix_report.json.
\<close>

theorem fix_report_written_last:
  assumes "fix_stage e a rules df od = res"
  shows "(rr_abort res \<noteq> None \<longrightarrow> od_fix_report (rr_out res) = od_fix_report od)
       \<and> ((a_fix a \<or> a_fix_dry_run a) \<and> nrows df > 0 \<and> rr_abort res = None \<longrightarrow>
            (\<exists>rep. od_fix_report (rr_out res) = Some rep
                 \<and> total_rows_before rep = Some (nrows df)
                 \<and> total_rows_after rep = Some (nrows (rr_df res))))"
proof (cases "a_fix a \<or> a_fix_dry_run a")
  case False
  with assms show ?thesis by (auto simp: fix_stage_def)
next
  case fixmode: True
  show ?thesis
  proof (cases "fix_pass e rules df (od_quarantine od)")
    case (Inl p)
    with fixmode assms show ?thesis
      by (cases p) (auto simp: fix_stage_def)
  next
    case (Inr st)
    note cnt = fix_pass_counts[OF Inr]
    let ?od1 = "od \<lparr> od_quarantine := fs_quarantine st \<rparr>"
    obtain od' ab where g: "guardrails a (fs_report st) (length (df_columns (fs_df st))) ?od1 = (od', ab)"
      by (cases "guardrails a (fs_report st) (length (df_columns (fs_df st))) ?od1")
    show ?thesis
    proof (cases ab)
      case None
      with g fixmode Inr assms have res: "rr_abort res = None" "rr_df res = fs_df st"
        "od_fix_report (rr_out res) = od_fix_report od'"
        by (auto simp: fix_stage_def)
      have "nrows df > 0 \<Longrightarrow> od_fix_report od' = Some (fs_report st)"
        using guardrails_pass[OF g[unfolded None] cnt(1)] by simp
      with res cnt show ?thesis by simp
    next
      case (Some x)
      with g fixmode Inr assms have res: "rr_abort res = Some x" "rr_out res = od'"
        by (auto simp: fix_stage_def)
      from guardrails_abort[OF g[unfolded Some]] have "od' = ?od1" .
      with res show ?thesis by simp
    qed
  qed
qed

theorem fix_report_written_last_witness:
  "rr_abort (fix_stage sample_env strict_args amount_rules amounts_df empty_out) \<noteq> None
   \<and> od_fix_report (rr_out (fix_stage sample_env strict_args amount_rules amounts_df empty_out))
       = od_fix_report empty_out
   \<and> (a_fix lenient_args \<or> a_fix_dry_run lenient_args) \<and> nrows amounts_df > 0
   \<and> rr_abort (fix_stage sample_env lenient_args amount_rules amounts_df empty_out) = None
   \<and> (\<exists>rep. od_fix_report (rr_out (fix_stage sample_env lenient_args amount_rules amounts_df empty_out))
               = Some rep
            \<and> total_rows_before rep = Some 4 \<and> total_rows_after rep = Some 4)"
proof -
  let ?s = "fix_stage sample_env strict_args amount_rules amounts_df empty_out"
  let ?l = "fix_stage sample_env lenient_args amount_rules amounts_df empty_out"
  have fx: "a_fix strict_args" "\<not> a_fix_dry_run strict_args"
    "a_fix lenient_args" "\<not> a_fix_dry_run lenient_args"
    by (simp_all add: strict_args_def lenient_args_def)
  have s: "rr_abort ?s = Some (CellChangesExceeded 25 5)"
    by (simp add: fix_stage_def fix_pass_amounts empty_out_def clipped_columns guardrails_strict fx)
  have l: "rr_abort ?l = None"
    by (simp add: fix_stage_def fix_pass_amounts empty_out_def clipped_columns guardrails_lenient fx)
  have df: "rr_df ?l = clipped_amounts_df"
    by (simp add: fix_stage_def fix_pass_amounts empty_out_def clipped_columns guardrails_lenient fx)
  from fix_report_written_last[of sample_env strict_args amount_rules amounts_df empty_out ?s] s
  have a: "od_fix_report (rr_out ?s) = od_fix_report empty_out" by simp
  from fix_report_written_last[of sample_env lenient_args amount_rules amounts_df empty_out ?l] l fx
  have b: "\<exists>rep. od_fix_report (rr_out ?l) = Some rep
            \<and> total_rows_before rep = Some 4 \<and> total_rows_after rep = Some 4"
    by (simp add: nrows_amounts df)
  from s a b l fx show ?thesis by (simp add: nrows_amounts)
qed

subsection \<open>clip_range\<close>

lemma parse_abc: "parse_integer ''abc'' = None"
  by (simp add: parse_integer_def)

lemma parse_25: "parse_integer ''25'' = Some 25"
  by (simp add: parse_integer_def)

lemma mixed_names: "col_names mixed_df = [''amount'']"
  by (simp add: col_names_def mixed_df_def)

lemma mixed_values: "col_values mixed_df 0 = [Text ''abc'', Text ''25'']"
  by (simp add: col_values_def mixed_df_def cell_at_def)

lemma mixed_set_column:
  "set_column mixed_df 0 DNumeric [Missing, Number 20]
   = \<lparr> df_columns = [(''amount'', DNumeric)], df_rows = [[Missing], [Number 20]] \<rparr>"
  by (simp add: set_column_def mixed_df_def)

text \<open>
  C2. The clip step is to leave a cell whose value fails numeric coercion unchanged. The
  code does not: once any cell of the column is clipped, the whole column is replaced by
  the coerced and clipped series, so the string \<open>abc\<close> below becomes a missing value,
  while the action counts one affected cell and the quarantine file lists only the
  clipped 25.
\<close>

theorem clip_range_erases_text:
  "to_numeric sample_env (Text ''abc'') = None
   \<and> clip_range sample_env
        \<lparr> fs_df = mixed_df, fs_report = new_report, fs_quarantine = Map.empty \<rparr>
        ''amount'' (Some 0) (Some 20) ''test''
     = \<lparr> fs_df = \<lparr> df_columns = [(''amount'', DNumeric)],
                    df_rows = [[Missing], [Number 20]] \<rparr>,
         fs_report = add_action new_report ''test_amount_range'' ''test'' (Some ''amount'')
                       ''clip'' 1 (BoundsNote (Some 0) (Some 20)),
         fs_quarantine = [''test_amount_range_clipped.csv'' \<mapsto>
                            ([''amount'', ''amount_clipped''], [[Number 25, Number 20]])] \<rparr>"
proof -
  have a: "to_numeric sample_env (Text ''abc'') = None"
    by (simp add: sample_env_def parse_abc)
  have b: "clip_range sample_env
        \<lparr> fs_df = mixed_df, fs_report = new_report, fs_quarantine = Map.empty \<rparr>
        ''amount'' (Some 0) (Some 20) ''test''
     = \<lparr> fs_df = \<lparr> df_columns = [(''amount'', DNumeric)],
                    df_rows = [[Missing], [Number 20]] \<rparr>,
         fs_report = add_action new_report ''test_amount_range'' ''test'' (Some ''amount'')
                       ''clip'' 1 (BoundsNote (Some 0) (Some 20)),
         fs_quarantine = [''test_amount_range_clipped.csv'' \<mapsto>
                            ([''amount'', ''amount_clipped''], [[Number 25, Number 20]])] \<rparr>"
    by (simp add: clip_range_def Let_def mixed_names mixed_values sample_env_def parse_abc parse_25
          clip_value_def mask_sum_def mixed_set_column cell_of_num_def select_rows_def)
  from a b show ?thesis by (intro conjI)
qed

subsection \<open>trim_strings\<close>





















section \<open>Properties of the null heatmap\<close>

lemma notes_index: "index_of (col_names notes_df) ''notes'' = Some (Suc 0)"
  by (simp add: notes_names)

lemma notes_values: "col_values notes_df (Suc 0) = [Text ''a'', Missing, Text ''b'', Missing]"
  "col_values notes_df 0 = [Number 1, Number 2, Number 3, Number 4]"
  by (simp_all add: col_values_def notes_rows cell_at_def)

lemma notes_nrows: "nrows notes_df = 4"
  by (simp add: nrows_def notes_rows)

lemma evaluate_twice:
  "evaluate sample_env notes_df twice_rules
   = Inr \<lparr> es_checks = twice_checks, es_passed = 0, es_failed = 2 \<rparr>"
  by (simp add: evaluate_def twice_rules_def notes_index eval_column_check_def
        check_outcome_def Let_def notes_values notes_nrows mask_sum_def is_missing_def
        record_check_def twice_checks_def)

lemma failing_twice: "failing_null_cols twice_checks = [''notes'', ''notes'']"
  by (simp add: failing_null_cols_def twice_checks_def)

lemma failing_null_cols_filter:
  "failing_null_cols checks =
     map (\<lambda>c. the (r_column c))
       (filter (\<lambda>c. r_type c = ''null_rate'' \<and> r_status c = Fail
                    \<and> (\<exists>n. r_column c = Some n \<and> n \<noteq> [])) checks)"
  by (induction checks) (auto simp: failing_null_cols_def split: option.splits)

lemma col_names_head [simp]: "col_names (head n df) = col_names df"
  by (simp add: head_def col_names_def)

lemma map_fst_null_fracs: "map fst (null_fracs df) = col_names df"
proof -
  have "map fst (null_fracs df) = map snd (enumerate 0 (col_names df))"
    by (simp add: null_fracs_def case_prod_unfold comp_def)
  then show ?thesis by simp
qed

lemma null_fracs_upt:
  "null_fracs df = map (\<lambda>j. (col_names df ! j, null_frac df j)) [0..<length (col_names df)]"
  by (rule nth_equalityI) (simp_all add: null_fracs_def nth_enumerate_eq)

lemma set_null_fracs:
  "set (null_fracs df) = {(col_names df ! j, null_frac df j) | j. j < length (col_names df)}"
  by (auto simp: null_fracs_upt)

lemma distinct_map_fst_sort_key:
  "distinct (map fst xs) \<Longrightarrow> distinct (map fst (sort_key k xs))"
proof -
  have "mset (map fst (sort_key k xs)) = mset (map fst xs)" by simp
  then show "distinct (map fst xs) \<Longrightarrow> distinct (map fst (sort_key k xs))"
    by (metis mset_eq_imp_distinct_iff)
qed

lemma positive_null_cols_spec:
  assumes "distinct (col_names df)"
  shows "\<exists>ps. positive_null_cols df = map fst ps
            \<and> distinct (map fst ps)
            \<and> set ps = {(col_names df ! j, x) | j x.
                          j < length (col_names df)
                          \<and> null_frac (head 1000 df) j = Some x \<and> 0 < x}
            \<and> sorted_wrt (\<lambda>p q. snd q \<le> snd p) ps"
proof -
  let ?h = "head 1000 df"
  let ?S = "sort_key (\<lambda>p. frac_key (snd p)) (null_fracs ?h)"
  let ?Q = "filter (\<lambda>p. frac_pos (snd p)) ?S"
  let ?ps = "map (\<lambda>p. (fst p, the (snd p))) ?Q"
  have pos: "p \<in> set ?Q \<Longrightarrow> \<exists>x. snd p = Some x \<and> 0 < x" for p
    by (auto simp: frac_pos_def split: option.splits)
  have a: "positive_null_cols df = map fst ?ps"
    by (simp add: positive_null_cols_def Let_def comp_def)
  have "distinct (map fst (null_fracs ?h))"
    using assms by (simp add: map_fst_null_fracs)
  then have "distinct (map fst ?S)" by (rule distinct_map_fst_sort_key)
  then have "distinct (map fst ?Q)" by (rule distinct_map_filter)
  then have b: "distinct (map fst ?ps)" by (simp add: comp_def)
  have c: "set ?ps = {(col_names df ! j, x) | j x.
                          j < length (col_names df)
                          \<and> null_frac ?h j = Some x \<and> 0 < x}"
  proof -
    have "set ?Q = {p \<in> set (null_fracs ?h). frac_pos (snd p)}" by auto
    also have "\<dots> = {(col_names df ! j, Some x) | j x.
                          j < length (col_names df)
                          \<and> null_frac ?h j = Some x \<and> 0 < x}"
      by (fastforce simp: set_null_fracs frac_pos_def split: option.splits)
    finally have q: "set ?Q = {(col_names df ! j, Some x) | j x.
                          j < length (col_names df)
                          \<and> null_frac ?h j = Some x \<and> 0 < x}" .
    have "set ?ps = (\<lambda>p. (fst p, the (snd p))) ` set ?Q" by simp
    also have "\<dots> = {(col_names df ! j, x) | j x.
                          j < length (col_names df)
                          \<and> null_frac ?h j = Some x \<and> 0 < x}"
      unfolding q by (auto simp: image_iff) force
    finally show ?thesis .
  qed
  have "sorted (map (\<lambda>p. frac_key (snd p)) ?S)" by (rule sorted_sort_key)
  then have "sorted (map (\<lambda>p. frac_key (snd p)) ?Q)" by (rule sorted_filter)
  then have sq: "sorted_wrt (\<lambda>p q. frac_key (snd p) \<le> frac_key (snd q)) ?Q"
    by (simp add: sorted_map)
  have "sorted_wrt (\<lambda>p q. the (snd q) \<le> the (snd p)) ?Q"
  proof (rule sorted_wrt_mono_rel[OF _ sq])
    fix p q assume "p \<in> set ?Q" "q \<in> set ?Q" "frac_key (snd p) \<le> frac_key (snd q)"
    with pos[of p] pos[of q] show "the (snd q) \<le> the (snd p)"
      by (auto simp: frac_key_def)
  qed
  then have d: "sorted_wrt (\<lambda>p q. snd q \<le> snd p) ?ps"
    by (simp add: sorted_wrt_map)
  from a b c d show ?thesis by blast
qed

text \<open>
  C8 as stated fails: the columns of the failing null_rate checks are not made distinct.
  Two failing null_rate checks on the column \<open>notes\<close> give the heatmap that column
  twice.
\<close>

theorem heatmap_repeats_column_counterexample:
  "evaluate sample_env notes_df twice_rules
     = Inr \<lparr> es_checks = twice_checks, es_passed = 0, es_failed = 2 \<rparr>
   \<and> viz_cols twice_checks notes_df = [''notes'', ''notes'']
   \<and> \<not> distinct (viz_cols twice_checks notes_df)"
proof -
  have v: "viz_cols twice_checks notes_df = [''notes'', ''notes'']"
    by (simp add: viz_cols_def Let_def failing_twice notes_names)
  then have "\<not> distinct (viz_cols twice_checks notes_df)" by simp
  with evaluate_twice v show ?thesis by (intro conjI)
qed

text \<open>
  C8, as the code has it. With the visualization enabled, if some null_rate check with a
  column is failing, cols lists the column of every such check, one entry per check and
  in check order, filtered to columns of the dataset and cut to 14. Otherwise, for a
  dataset with distinct column names, cols is the first 14 of the columns whose
  missing-value fraction over the first 1000 rows is positive, each once, in descending
  order of fraction. In both cases cols has at most 14 entries, all of them columns of
  the dataset.
\<close>

theorem heatmap_columns:
  assumes "distinct (col_names df)"
    and "failing = filter (\<lambda>c. r_type c = ''null_rate'' \<and> r_status c = Fail
                              \<and> (\<exists>n. r_column c = Some n \<and> n \<noteq> [])) checks"
  shows "(failing \<noteq> [] \<longrightarrow>
            viz_cols checks df
              = take 14 (filter (\<lambda>n. n \<in> set (col_names df))
                           (map (\<lambda>c. the (r_column c)) failing)))
       \<and> (failing = [] \<longrightarrow>
            (\<exists>ps. viz_cols checks df = take 14 (map fst ps)
                \<and> distinct (map fst ps)
                \<and> set ps = {(col_names df ! j, x) | j x.
                              j < length (col_names df)
                              \<and> null_frac (head 1000 df) j = Some x \<and> 0 < x}
                \<and> sorted_wrt (\<lambda>p q. snd q \<le> snd p) ps))
       \<and> length (viz_cols checks df) \<le> 14
       \<and> set (viz_cols checks df) \<subseteq> set (col_names df)"
proof (intro conjI impI)
  assume "failing \<noteq> []"
  then show "viz_cols checks df
              = take 14 (filter (\<lambda>n. n \<in> set (col_names df))
                           (map (\<lambda>c. the (r_column c)) failing))"
    unfolding assms(2) viz_cols_def Let_def failing_null_cols_filter by simp
next
  assume e: "failing = []"
  from positive_null_cols_spec[OF assms(1)] obtain ps where
    p: "positive_null_cols df = map fst ps" and d: "distinct (map fst ps)"
    and s: "set ps = {(col_names df ! j, x) | j x.
                              j < length (col_names df)
                              \<and> null_frac (head 1000 df) j = Some x \<and> 0 < x}"
    and o: "sorted_wrt (\<lambda>p q. snd q \<le> snd p) ps"
    by blast
  have "\<forall>n\<in>set (map fst ps). n \<in> set (col_names df)"
    using s by auto
  then have "filter (\<lambda>n. n \<in> set (col_names df)) (map fst ps) = map fst ps"
    by (simp only: filter_id_conv)
  with e p have "viz_cols checks df = take 14 (map fst ps)"
    unfolding assms(2) viz_cols_def Let_def failing_null_cols_filter by simp
  with d s o show "\<exists>ps. viz_cols checks df = take 14 (map fst ps)
                \<and> distinct (map fst ps)
                \<and> set ps = {(col_names df ! j, x) | j x.
                              j < length (col_names df)
                              \<and> null_frac (head 1000 df) j = Some x \<and> 0 < x}
                \<and> sorted_wrt (\<lambda>p q. snd q \<le> snd p) ps"
    by blast
next
  show "length (viz_cols checks df) \<le> 14"
    by (simp add: viz_cols_def Let_def)
next
  show "set (viz_cols checks df) \<subseteq> set (col_names df)"
    by (auto simp: viz_cols_def Let_def dest: in_set_takeD)
qed

lemma positive_notes: "positive_null_cols notes_df = [''notes'']"
proof -
  have h: "head 1000 notes_df = notes_df"
    by (simp add: head_def notes_rows)
  have f: "null_fracs notes_df = [(''id'', Some 0), (''notes'', Some (1 / 2))]"
    by (simp add: null_fracs_def notes_names null_frac_def notes_nrows notes_values
          mask_sum_def is_missing_def)
  show ?thesis
    by (simp add: positive_null_cols_def Let_def h f frac_key_def frac_pos_def)
qed

theorem heatmap_columns_witness:
  "distinct (col_names notes_df)
   \<and> viz_cols twice_checks notes_df = [''notes'', ''notes'']
   \<and> viz_cols [] notes_df = [''notes'']"
proof -
  let ?P = "\<lambda>c. r_type c = ''null_rate'' \<and> r_status c = Fail
                 \<and> (\<exists>n. r_column c = Some n \<and> n \<noteq> [])"
  have d: "distinct (col_names notes_df)" by (simp add: notes_names)
  have f: "filter ?P twice_checks = twice_checks"
    by (simp add: twice_checks_def)
  have ne: "twice_checks \<noteq> []" by (simp add: twice_checks_def)
  note g1 = heatmap_columns[OF d f[symmetric], THEN conjunct1, rule_format, OF ne]
  have a: "viz_cols twice_checks notes_df = [''notes'', ''notes'']"
    unfolding g1 by (simp add: twice_checks_def notes_names)
  have e: "[] = filter ?P []" by simp
  note g2 = heatmap_columns[OF d e, THEN conjunct2, THEN conjunct1]
  have b: "viz_cols [] notes_df = [''notes'']"
    by (simp add: viz_cols_def Let_def failing_null_cols_def positive_notes notes_names)
  show ?thesis using g2 d a b by - (intro conjI; assumption)
qed

section \<open>Properties of the summary injection\<close>

lemma sorted_reverse_sorted:
  "sorted_wrt (\<lambda>a b. k a \<ge> k b) (sorted_reverse k xs)"
proof -
  have "sorted (map (\<lambda>x. - k x) (sort_key (\<lambda>x. - k x) xs))" by (rule sorted_sort_key)
  then show ?thesis by (simp add: sorted_reverse_def sorted_map)
qed

lemma sorted_reverse_mset: "mset (sorted_reverse k xs) = mset xs"
  by (simp add: sorted_reverse_def)

lemma sorted_reverse_stable:
  "filter (\<lambda>x. k x = v) (sorted_reverse k xs) = filter (\<lambda>x. k x = v) xs"
proof -
  have "filter (\<lambda>x. - k x = - v) (sort_key (\<lambda>x. - k x) xs) = filter (\<lambda>x. - k x = - v) xs"
    by (rule sort_key_stable)
  then show ?thesis by (simp add: sorted_reverse_def)
qed

lemma inject_summary_canonical:
  assumes "files (canonical_results out) = Some (JsonFile doc)" and "rd_summary doc = None"
  shows "inject_summary out ds stem stamp mode files (canonical_results out)
         = Some (JsonFile (doc \<lparr> rd_summary := Some (make_summary ds mode stamp doc) \<rparr>))"
  using assms by (simp add: inject_summary_def Let_def)

lemma sample_top:
  "map jc_name (top_failing sample_checks) = [''f'', ''c'', ''g'', ''a'', ''d'']"
  by (simp add: top_failing_def sorted_reverse_def sample_checks_def has_status_def count_of_def)

text \<open>
  C9. Given a results document that loads and has no summary field, the orchestrator
  writes back to the canonical results.json path the same document with a summary whose
  passed and failed are recounted from the checks list and whose top_failing is the
  first five of the failing checks sorted by descending count, checks of equal count
  keeping their original relative order.
\<close>

theorem summary_injected:
  assumes "files (canonical_results out) = Some (JsonFile doc)" and "rd_summary doc = None"
    and "checks = (case rd_checks doc of None \<Rightarrow> [] | Some cs \<Rightarrow> cs)"
  shows "\<exists>s L. inject_summary out ds stem stamp mode files (canonical_results out)
                 = Some (JsonFile (doc \<lparr> rd_summary := Some s \<rparr>))
           \<and> sm_dataset s = ds \<and> sm_mode s = mode \<and> sm_timestamp s = stamp
           \<and> sm_passed s = length (filter (\<lambda>c. jc_status c = Some ''pass'') checks)
           \<and> sm_failed s = length (filter (\<lambda>c. jc_status c = Some ''fail'') checks)
           \<and> sm_top_failing s = take 5 L
           \<and> mset L = mset (filter (\<lambda>c. jc_status c = Some ''fail'') checks)
           \<and> sorted_wrt (\<lambda>a b. count_of a \<ge> count_of b) L
           \<and> (\<forall>k. filter (\<lambda>c. count_of c = k) L
                    = filter (\<lambda>c. count_of c = k)
                        (filter (\<lambda>c. jc_status c = Some ''fail'') checks))"
proof -
  let ?s = "make_summary ds mode stamp doc"
  let ?F = "filter (\<lambda>c. jc_status c = Some ''fail'') checks"
  let ?L = "sorted_reverse count_of ?F"
  have hs: "has_status s = (\<lambda>c. jc_status c = Some s)" for s
    by (simp add: fun_eq_iff has_status_def)
  have top: "sm_top_failing ?s = take 5 ?L"
    by (simp add: make_summary_def Let_def top_failing_def hs assms(3))
  have p: "sm_passed ?s = length (filter (\<lambda>c. jc_status c = Some ''pass'') checks)"
    by (simp add: make_summary_def Let_def hs assms(3))
  have f: "sm_failed ?s = length ?F"
    by (simp add: make_summary_def Let_def hs assms(3))
  have m: "sm_dataset ?s = ds" "sm_mode ?s = mode" "sm_timestamp ?s = stamp"
    by (simp_all add: make_summary_def Let_def)
  have st: "\<forall>k. filter (\<lambda>c. count_of c = k) ?L = filter (\<lambda>c. count_of c = k) ?F"
    by (simp add: sorted_reverse_stable)
  show ?thesis
  proof (intro exI conjI)
    show "inject_summary out ds stem stamp mode files (canonical_results out)
                 = Some (JsonFile (doc \<lparr> rd_summary := Some ?s \<rparr>))"
      using assms(1,2) by (rule inject_summary_canonical)
    show "sm_top_failing ?s = take 5 ?L" by (rule top)
    show "mset ?L = mset ?F" by (rule sorted_reverse_mset)
    show "sorted_wrt (\<lambda>a b. count_of a \<ge> count_of b) ?L" by (rule sorted_reverse_sorted)
  qed (rule p f m st)+
qed

theorem summary_injected_witness:
  "sample_files (canonical_results ''out'') = Some (JsonFile sample_doc)
   \<and> rd_summary sample_doc = None
   \<and> (\<exists>s. inject_summary ''out'' ''orders.csv'' ''orders'' ''20250101-1200'' ''plain''
              sample_files (canonical_results ''out'')
            = Some (JsonFile (sample_doc \<lparr> rd_summary := Some s \<rparr>))
          \<and> sm_passed s = 1 \<and> sm_failed s = 6
          \<and> map jc_name (sm_top_failing s) = [''f'', ''c'', ''g'', ''a'', ''d''])"
proof -
  let ?run = "inject_summary ''out'' ''orders.csv'' ''orders'' ''20250101-1200'' ''plain''
              sample_files (canonical_results ''out'')"
  let ?s = "make_summary ''orders.csv'' ''plain'' ''20250101-1200'' sample_doc"
  have h1: "sample_files (canonical_results ''out'') = Some (JsonFile sample_doc)"
    by (simp add: sample_files_def)
  have h2: "rd_summary sample_doc = None"
    by (simp add: sample_doc_def)
  have h3: "sample_checks = (case rd_checks sample_doc of None \<Rightarrow> [] | Some cs \<Rightarrow> cs)"
    by (simp add: sample_doc_def)
  note general = summary_injected[where files = sample_files and out = "''out''"
         and doc = sample_doc and checks = sample_checks and ds = "''orders.csv''"
         and stem = "''orders''" and stamp = "''20250101-1200''" and mode = "''plain''",
         OF h1 h2 h3]
  have run: "?run = Some (JsonFile (sample_doc \<lparr> rd_summary := Some ?s \<rparr>))"
    using h1 h2 by (rule inject_summary_canonical)
  have top: "map jc_name (sm_top_failing ?s) = [''f'', ''c'', ''g'', ''a'', ''d'']"
    by (simp add: make_summary_def Let_def sample_doc_def sample_top)
  have p1: "sm_passed ?s = 1"
    by (simp add: make_summary_def Let_def sample_doc_def sample_checks_def has_status_def)
  have f1: "sm_failed ?s = 6"
    by (simp add: make_summary_def Let_def sample_doc_def sample_checks_def has_status_def)
  have concl: "\<exists>s. ?run = Some (JsonFile (sample_doc \<lparr> rd_summary := Some s \<rparr>))
          \<and> sm_passed s = 1 \<and> sm_failed s = 6
          \<and> map jc_name (sm_top_failing s) = [''f'', ''c'', ''g'', ''a'', ''d'']"
    by (intro exI[of _ ?s] conjI) (rule run p1 f1 top)+
  show ?thesis
    using general h1 h2 concl by - (intro conjI; assumption)
qed

end
